theory Spec2Isabelle
  imports Complex_Main
begin

section \<open>Numeric conventions of the embedding\<close>

text \<open>
  The repository is a set of NumPy routines for Fourier optics. The embedding computes
  over the real and complex numbers: rounding is not modelled, so an equality proved here
  is the exact counterpart of an equality "within floating-point tolerance".

  A floating-point result that is not finite is modelled explicitly. \<open>NonFin\<close> stands for
  the values that \<^verbatim>\<open>np.isfinite\<close> rejects (nan, inf, -inf); it arises from a division
  by zero and from a NaN placed in the data, and every arithmetic operation that receives
  it returns it.

  Arrays are lists; a two-dimensional array is the list of its rows (first index).
\<close>

datatype npfloat = Fin real | NonFin

text \<open>\<^verbatim>\<open>np.divide(a, b)\<close> on floating-point scalars: no exception, a non-finite value
  when the divisor is zero.\<close>

definition np_divide :: "real \<Rightarrow> real \<Rightarrow> npfloat" where
  "np_divide a b = (if b = 0 then NonFin else Fin (a / b))"

fun np_square :: "npfloat \<Rightarrow> npfloat" where
  "np_square (Fin x) = Fin (x * x)"
| "np_square NonFin = NonFin"

text \<open>\<^verbatim>\<open>a.sum()\<close> over all elements of a two-dimensional array.\<close>

definition sum2 :: "'a::monoid_add list list \<Rightarrow> 'a" where
  "sum2 a = sum_list (map sum_list a)"

section \<open>wfe2strehl.py\<close>

text \<open>
  \<^verbatim>\<open>Efield = np.exp(2.0j * np.pi * wfe)\<close>
  \<^verbatim>\<open>strehl = np.square(np.divide(np.abs(Efield.sum()), np.abs(Efield).sum()))\<close>
\<close>

definition Efield :: "complex list list \<Rightarrow> complex list list" where
  "Efield wfe = map (map (\<lambda>z. exp (2 * \<i> * complex_of_real pi * z))) wfe"

definition wfe2strehl :: "complex list list \<Rightarrow> npfloat" where
  "wfe2strehl wfe =
     np_square (np_divide (cmod (sum2 (Efield wfe))) (sum2 (map (map cmod) (Efield wfe))))"

text \<open>Adding the real constant \<open>c\<close> (a uniform piston) to every sample of a map.\<close>

definition add_piston :: "real \<Rightarrow> complex list list \<Rightarrow> complex list list" where
  "add_piston c wfe = map (map (\<lambda>z. z + complex_of_real c)) wfe"

section \<open>Python values shared by the routines\<close>

text \<open>
  The routines are a transliteration from IDL. Where a name or a call cannot be the one
  meant (\<^verbatim>\<open>data.size()\<close> for the attribute \<^verbatim>\<open>size\<close>, \<^verbatim>\<open>np.fft.fft2\<close> applied to a
  one-dimensional segment, a float used as a slice bound, \<^verbatim>\<open>np.full(Nseg, Nfreq)\<close> for the
  \<open>Nseg \<times> Nfreq\<close> array of spectra) the model reads the array operation that the line
  names. What a line computes (its constants, defaults, divisors, slice bounds, summation
  axes, and whether it raises or prints) is modelled as written.

  The routines \<^verbatim>\<open>psd2wfe\<close> and \<^verbatim>\<open>wfe2psf\<close> are modelled as the interpreter runs
  them, every such line raising the exception that Python raises there. Each of them has a
  second model, named \<open>_repaired\<close> and kept in a section of its own, in which those
  lines are read as the operation they name.
\<close>

datatype py_error = ValueError string | IndexError string | TypeError string
  | AttributeError string | NameError string | ZeroDivisionError string

fun isfinite :: "npfloat \<Rightarrow> bool" where
  "isfinite (Fin x) = True"
| "isfinite NonFin = False"

fun the_real :: "npfloat \<Rightarrow> real" where
  "the_real (Fin x) = x"
| "the_real NonFin = 0"

fun np_add :: "npfloat \<Rightarrow> npfloat \<Rightarrow> npfloat" where
  "np_add (Fin x) (Fin y) = Fin (x + y)"
| "np_add _ _ = NonFin"

fun np_scale :: "npfloat \<Rightarrow> real \<Rightarrow> npfloat" where
  "np_scale (Fin x) c = Fin (x * c)"
| "np_scale NonFin c = NonFin"

text \<open>Division of an array element by a count: non-finite stays non-finite, division by
  zero is non-finite.\<close>

fun np_divide_by :: "npfloat \<Rightarrow> real \<Rightarrow> npfloat" where
  "np_divide_by (Fin x) d = np_divide x d"
| "np_divide_by NonFin d = NonFin"

definition np_sum :: "npfloat list \<Rightarrow> npfloat" where
  "np_sum xs = foldr np_add xs (Fin 0)"

text \<open>\<^verbatim>\<open>np.round\<close>: to the nearest integer, a tie to the even one.\<close>

definition np_round :: "real \<Rightarrow> int" where
  "np_round x =
     (let f = \<lfloor>x\<rfloor>; d = x - of_int f
      in if d < 1 / 2 then f else if 1 / 2 < d then f + 1 else if even f then f else f + 1)"

text \<open>\<^verbatim>\<open>xs[a:b]\<close>: a negative bound counts from the end, both bounds are clamped to the
  array, and the upper bound is excluded.\<close>

definition py_slice :: "'a list \<Rightarrow> int \<Rightarrow> int \<Rightarrow> 'a list" where
  "py_slice xs a b =
     (let n = int (length xs);
          a' = (if a < 0 then max (a + n) 0 else min a n);
          b' = (if b < 0 then max (b + n) 0 else min b n)
      in take (nat (b' - a')) (drop (nat a') xs))"

text \<open>\<^verbatim>\<open>np.hanning(M)\<close>: \<open>0.5 - 0.5 cos(2 \<pi> n / (M - 1))\<close>, the single value 1 when
  \<open>M = 1\<close>.\<close>

definition hanning :: "nat \<Rightarrow> real list" where
  "hanning M =
     (if M = 1 then [1]
      else map (\<lambda>n. 1 / 2 - 1 / 2 * cos (2 * pi * real n / real (M - 1))) [0..<M])"

text \<open>The discrete Fourier transform of NumPy (no normalisation of the forward
  transform), in one and in two dimensions.\<close>

definition twiddle :: "nat \<Rightarrow> nat \<Rightarrow> nat \<Rightarrow> complex" where
  "twiddle N k n = cis (- (2 * pi * real k * real n / real N))"

definition fft :: "complex list \<Rightarrow> complex list" where
  "fft xs = (let N = length xs
             in map (\<lambda>k. sum_list (map (\<lambda>n. xs ! n * twiddle N k n) [0..<N])) [0..<N])"

section \<open>periodogram\_fft.py\<close>

text \<open>
  \<^verbatim>\<open>def periodogram_fft(data, retain_dc = True)\<close>. The keyword is an optional argument:
  \<open>None\<close> is a call that does not give it, and the value it then takes is the default
  written in the signature.

  The source has one function for both dimensionalities; \<open>periodogram_fft\<close> is its
  branch for a one-dimensional array. Every bin of the transform sums all the samples, so
  a non-finite sample (or a non-finite mean) makes every bin non-finite.
\<close>

definition retain_dc_given :: "bool option \<Rightarrow> bool" where
  "retain_dc_given kw = (case kw of None \<Rightarrow> True | Some b \<Rightarrow> b)"

definition mean :: "real list \<Rightarrow> real" where
  "mean xs = sum_list xs / real (length xs)"

definition data_corrected :: "real list \<Rightarrow> bool \<Rightarrow> real list" where
  "data_corrected data retain_dc =
     (if retain_dc then data else map (\<lambda>x. x - mean data) data)"

definition power1d :: "real list \<Rightarrow> real list" where
  "power1d dc =
     (let Nx = length dc
      in map (\<lambda>F. (cmod F)\<^sup>2 * (26666667 / 10000000) * real Nx)
             (fft (map (\<lambda>(x, w). complex_of_real (x * w)) (zip dc (hanning Nx)))))"

definition periodogram_fft :: "npfloat list \<Rightarrow> bool option \<Rightarrow> npfloat list" where
  "periodogram_fft data kw =
     (if list_all isfinite data
      then map Fin (power1d (data_corrected (map the_real data) (retain_dc_given kw)))
      else replicate (length data) NonFin)"

section \<open>powerspec.py\<close>

text \<open>
  \<^verbatim>\<open>def powerspec(data, Nfreq = 16, dx = dx, radians = False, retain_dc = False)\<close>.
  The result is either the exception raised or the lines printed together with the
  returned array \<^verbatim>\<open>power\<close>. The wavenumber array \<^verbatim>\<open>kx\<close> is computed and dropped by the
  source (\<^verbatim>\<open>return power#, k_arr\<close>); it is not part of the model.
\<close>

definition too_short :: string where
  "too_short = ''Data array too short to compute power spectrum using specified segment size.''"

text \<open>\<^verbatim>\<open>xsep = np.divide(N - Nfreq, Nseg-1) * (1 - 1e-6)\<close>\<close>

definition xsep :: "int \<Rightarrow> int \<Rightarrow> int \<Rightarrow> npfloat" where
  "xsep N Nfreq Nseg =
     np_scale (np_divide (real_of_int (N - Nfreq)) (real_of_int (Nseg - 1))) (1 - 1 / 10 ^ 6)"

text \<open>
  The body of the loop: \<^verbatim>\<open>x0 = np.round(i*xsep)\<close>, \<^verbatim>\<open>x1 = x0 + Nfreq - 1\<close>,
  \<^verbatim>\<open>segment = data[x0:x1]\<close>, \<^verbatim>\<open>spectra[i] = periodogram_fft(segment, retain_dc = retain_dc)\<close>.
  A non-finite spacing has no integer index: the conversion raises.
\<close>

definition spectrum_of_segment ::
  "npfloat list \<Rightarrow> int \<Rightarrow> bool \<Rightarrow> npfloat \<Rightarrow> nat \<Rightarrow> py_error + npfloat list" where
  "spectrum_of_segment data Nfreq retain_dc sep i =
     (case sep of
        NonFin \<Rightarrow> Inl (ValueError ''cannot convert float NaN to integer'')
      | Fin s \<Rightarrow>
          (let x0 = np_round (real i * s);
               x1 = x0 + Nfreq - 1;
               segment = py_slice data x0 x1
           in Inr (periodogram_fft segment (Some retain_dc))))"

fun collect :: "('e + 'a) list \<Rightarrow> 'e + 'a list" where
  "collect [] = Inr []"
| "collect (Inl e # rs) = Inl e"
| "collect (Inr x # rs) = (case collect rs of Inl e \<Rightarrow> Inl e | Inr xs \<Rightarrow> Inr (x # xs))"

text \<open>\<^verbatim>\<open>spectra[:, 0]\<close>: the zero-frequency bin of every spectrum.\<close>

definition column0 :: "npfloat list list \<Rightarrow> py_error + npfloat list" where
  "column0 spectra =
     collect (map (\<lambda>row. case row of [] \<Rightarrow> Inl (IndexError ''index 0 is out of bounds'')
                                   | x # _ \<Rightarrow> Inr x) spectra)"

text \<open>\<^verbatim>\<open>spectra[ss]\<close> with a boolean mask \<open>ss\<close> over the first axis.\<close>

definition select :: "bool list \<Rightarrow> 'a list \<Rightarrow> 'a list" where
  "select ss rows = map snd (filter fst (zip ss rows))"

definition powerspec ::
  "npfloat list \<Rightarrow> int \<Rightarrow> bool \<Rightarrow> py_error + (string list \<times> npfloat list)" where
  "powerspec data Nfreq retain_dc =
     (let N = int (length data)
      in if Nfreq < 4 then Inl (ValueError ''Nfreq is less than 4. Setting Nfreq = 4'')
         else
           (let Nseg = \<lceil>2 * real_of_int N / real_of_int Nfreq\<rceil> - 1;
                printed = (if Nseg < 2 then [too_short] else []);
                sep = xsep N Nfreq Nseg
            in case collect (map (spectrum_of_segment data Nfreq retain_dc sep) [0..<nat Nseg]) of
                 Inl e \<Rightarrow> Inl e
               | Inr spectra \<Rightarrow>
                   (case column0 spectra of
                      Inl e \<Rightarrow> Inl e
                    | Inr col \<Rightarrow>
                        (let ss = map isfinite col;
                             Nvalid = length ss;
                             power = map (\<lambda>row. np_divide_by (np_sum row) (real Nvalid))
                                         (select ss spectra)
                         in Inr (printed, power)))))"

section \<open>fit\_spherical\_wave.py\<close>

text \<open>
  \<^verbatim>\<open>def fit_spherical_wave(wfe, wfe_aperture, linear = True, least_squares = False)\<close>.
  The model is the branch \<^verbatim>\<open>if linear:\<close>; the other branch hands the fit to a simplex
  routine (\<^verbatim>\<open>amoeba\<close>) that the repository does not contain.

  A position is a pair (row, column). \<^verbatim>\<open>np.where(wfe.imag < 1.)\<close> is the list of the
  positions that satisfy the test, in row-major order; \<^verbatim>\<open>a[aperture]\<close> is the list of the
  values of \<open>a\<close> there.
\<close>

type_synonym pos = "nat \<times> nat"

definition elem :: "'a list list \<Rightarrow> pos \<Rightarrow> 'a" where
  "elem a p = a ! fst p ! snd p"

definition shape :: "'a list list \<Rightarrow> nat \<times> nat" where
  "shape a = (length a, case a of [] \<Rightarrow> 0 | r # _ \<Rightarrow> length r)"

definition positions :: "nat \<Rightarrow> nat \<Rightarrow> pos list" where
  "positions Nx Ny = concat (map (\<lambda>i. map (\<lambda>j. (i, j)) [0..<Ny]) [0..<Nx])"

definition tabulate2 :: "nat \<Rightarrow> nat \<Rightarrow> (pos \<Rightarrow> 'a) \<Rightarrow> 'a list list" where
  "tabulate2 Nx Ny f = map (\<lambda>i. map (\<lambda>j. f (i, j)) [0..<Ny]) [0..<Nx]"

text \<open>\<^verbatim>\<open>aperture = np.where(wfe.imag < 1.)\<close>\<close>

definition aperture :: "complex list list \<Rightarrow> pos list" where
  "aperture wfe =
     filter (\<lambda>p. Im (elem wfe p) < 1) (positions (fst (shape wfe)) (snd (shape wfe)))"

text \<open>\<^verbatim>\<open>xp = np.outer(np.arange(Nx), np.ones(Ny))\<close>,
  \<^verbatim>\<open>yp = np.outer(np.ones(Nx), np.arange(Ny))\<close>\<close>

definition xp :: "pos \<Rightarrow> real" where
  "xp p = real (fst p)"

definition yp :: "pos \<Rightarrow> real" where
  "yp p = real (snd p)"

text \<open>\<^verbatim>\<open>b -= b[aperture].mean()\<close> and \<^verbatim>\<open>b /= np.sqrt(np.square(b[aperture]).sum())\<close>\<close>

definition remove_bias :: "(pos \<Rightarrow> real) \<Rightarrow> pos list \<Rightarrow> pos \<Rightarrow> real" where
  "remove_bias b ap = (\<lambda>p. b p - sum_list (map b ap) / real (length ap))"

definition norm_over :: "(pos \<Rightarrow> real) \<Rightarrow> pos list \<Rightarrow> real" where
  "norm_over b ap = sqrt (sum_list (map (\<lambda>p. (b p)\<^sup>2) ap))"

definition unit_norm :: "(pos \<Rightarrow> real) \<Rightarrow> pos list \<Rightarrow> pos \<Rightarrow> real" where
  "unit_norm b ap = (\<lambda>p. b p / norm_over b ap)"

definition b1 :: "pos list \<Rightarrow> pos \<Rightarrow> real" where
  "b1 ap = unit_norm (remove_bias xp ap) ap"

definition b2 :: "pos list \<Rightarrow> pos \<Rightarrow> real" where
  "b2 ap = unit_norm (remove_bias yp ap) ap"

text \<open>\<^verbatim>\<open>b3 = np.square(b1) + np.square(b2)\<close>, before its bias is removed.\<close>

definition defocus :: "pos list \<Rightarrow> pos \<Rightarrow> real" where
  "defocus ap = (\<lambda>p. (b1 ap p)\<^sup>2 + (b2 ap p)\<^sup>2)"

definition b3 :: "pos list \<Rightarrow> pos \<Rightarrow> real" where
  "b3 ap = unit_norm (remove_bias (defocus ap) ap) ap"

text \<open>\<^verbatim>\<open>wfe[aperture].mean()\<close>\<close>

definition piston :: "complex list list \<Rightarrow> pos list \<Rightarrow> complex" where
  "piston wfe ap = sum_list (map (elem wfe) ap) / of_nat (length ap)"

text \<open>
  The mean over an empty aperture and each normalisation by a zero norm is a division by
  zero; it makes every element of the result non-finite. \<open>fit_defined\<close> says that none of
  them occurs, and the fit is \<open>None\<close> when one does.
\<close>

definition fit_defined :: "pos list \<Rightarrow> bool" where
  "fit_defined ap \<longleftrightarrow>
     ap \<noteq> [] \<and> norm_over (remove_bias xp ap) ap \<noteq> 0 \<and> norm_over (remove_bias yp ap) ap \<noteq> 0
     \<and> norm_over (remove_bias (defocus ap) ap) ap \<noteq> 0"

text \<open>
  \<^verbatim>\<open>result = wfe[aperture].mean() * np.ones((Nx, Ny), dtype = np.float)\<close>
  \<^verbatim>\<open>result += b1 * wfe_aperture * b1[aperture].sum()\<close>
  \<^verbatim>\<open>result += b2 * wfe_aperture * b2[aperture].sum()\<close>
  \<^verbatim>\<open>result += b3 * wfe_aperture * b3[aperture].sum()\<close>
  The parameter \<^verbatim>\<open>wfe_aperture\<close> is whatever the caller passes; \<open>wfe_aperture p\<close> is the
  value it contributes at position \<open>p\<close> (the same at every position for a scalar).
\<close>

definition fit_spherical_wave ::
  "complex list list \<Rightarrow> (pos \<Rightarrow> complex) \<Rightarrow> complex list list option" where
  "fit_spherical_wave wfe wfe_aperture =
     (let ap = aperture wfe
      in if \<not> fit_defined ap then None
         else Some (tabulate2 (fst (shape wfe)) (snd (shape wfe))
                (\<lambda>p. piston wfe ap
                   + complex_of_real (b1 ap p) * wfe_aperture p
                       * complex_of_real (sum_list (map (b1 ap) ap))
                   + complex_of_real (b2 ap p) * wfe_aperture p
                       * complex_of_real (sum_list (map (b2 ap) ap))
                   + complex_of_real (b3 ap p) * wfe_aperture p
                       * complex_of_real (sum_list (map (b3 ap) ap)))))"

text \<open>The map that is left when a fitted surface is subtracted, and the projection of a
  map onto a basis map over the aperture (the sum of the products of their values).\<close>

definition residual :: "complex list list \<Rightarrow> complex list list \<Rightarrow> complex list list" where
  "residual wfe s = map2 (map2 (-)) wfe s"

definition projection :: "complex list list \<Rightarrow> (pos \<Rightarrow> real) \<Rightarrow> pos list \<Rightarrow> real" where
  "projection r b ap = sum_list (map (\<lambda>p. Re (elem r p) * b p) ap)"

section \<open>The two-dimensional branch of periodogram\_fft.py\<close>

text \<open>
  \<^verbatim>\<open>power = np.square(np.abs(np.fft.fft2(data_corrected * np.hanning(Nx) *\<close>
  \<^verbatim>\<open>        np.hanning(Ny)[:, np.newaxis]))) * 7.1111111 * Nx * Ny\<close>
  NumPy lines \<^verbatim>\<open>np.hanning(Nx)\<close> up with the last axis and
  \<^verbatim>\<open>np.hanning(Ny)[:, np.newaxis]\<close> with the first one, so the product is defined for a
  square array only; \<^verbatim>\<open>powerspec2d\<close> passes square sub-images.
\<close>

definition fft2 :: "complex list list \<Rightarrow> complex list list" where
  "fft2 a =
     (let Nx = fst (shape a); Ny = snd (shape a)
      in tabulate2 Nx Ny
           (\<lambda>(u, v). sum_list (map (\<lambda>(x, y). elem a (x, y) * twiddle Nx u x * twiddle Ny v y)
                                     (positions Nx Ny))))"

definition mean2 :: "real list list \<Rightarrow> real" where
  "mean2 a = sum_list (concat a) / real (length (concat a))"

definition data_corrected2 :: "real list list \<Rightarrow> bool \<Rightarrow> real list list" where
  "data_corrected2 data retain_dc =
     (if retain_dc then data else map (map (\<lambda>x. x - mean2 data)) data)"

definition power2d :: "real list list \<Rightarrow> real list list" where
  "power2d dc =
     (let Nx = fst (shape dc); Ny = snd (shape dc)
      in map (map (\<lambda>F. (cmod F)\<^sup>2 * (71111111 / 10000000) * real Nx * real Ny))
           (fft2 (tabulate2 Nx Ny
                    (\<lambda>(i, j). complex_of_real (elem dc (i, j) * hanning Nx ! j * hanning Ny ! i)))))"

definition periodogram_fft2 :: "npfloat list list \<Rightarrow> bool option \<Rightarrow> npfloat list list" where
  "periodogram_fft2 data kw =
     (if list_all (list_all isfinite) data
      then map (map Fin) (power2d (data_corrected2 (map (map the_real) data) (retain_dc_given kw)))
      else map (map (\<lambda>x. NonFin)) data)"

section \<open>powerspec2d.py\<close>

text \<open>
  \<^verbatim>\<open>def powerspec2d(data, Nfreq = 16, retain_dc = False, ...)\<close>. The line
  \<^verbatim>\<open>Nfreq = round(Nfreq[0]) > 4\<close> carries the comment "Don't allow non-integer or smaller
  than 4" and keeps IDL's maximum operator; the model takes the larger of the rounded
  size and 4. The test \<^verbatim>\<open>NsegX < 2 | NsegY < 2\<close> is read as the disjunction it prints for.
\<close>




text \<open>\<^verbatim>\<open>data[x0:x1, y0:y1]\<close>\<close>

definition py_slice2 :: "'a list list \<Rightarrow> int \<Rightarrow> int \<Rightarrow> int \<Rightarrow> int \<Rightarrow> 'a list list" where
  "py_slice2 a x0 x1 y0 y1 = map (\<lambda>row. py_slice row y0 y1) (py_slice a x0 x1)"

text \<open>The inner loop body, for the row offset \<open>x0\<close> and the column index \<open>j\<close>.\<close>

definition spectrum_of_subimage ::
  "npfloat list list \<Rightarrow> int \<Rightarrow> bool \<Rightarrow> int \<Rightarrow> npfloat \<Rightarrow> nat
     \<Rightarrow> py_error + npfloat list list" where
  "spectrum_of_subimage data Nfreq retain_dc x0 ysep j =
     (case ysep of
        NonFin \<Rightarrow> Inl (ValueError ''cannot convert float NaN to integer'')
      | Fin s \<Rightarrow>
          (let y0 = np_round (real j * s);
               y1 = y0 + Nfreq - 1;
               x1 = x0 + Nfreq - 1;
               segment = py_slice2 data x0 x1 y0 y1
           in Inr (periodogram_fft2 segment (Some retain_dc))))"

text \<open>The outer loop body, for the row index \<open>i\<close>.\<close>

definition spectra_of_row ::
  "npfloat list list \<Rightarrow> int \<Rightarrow> bool \<Rightarrow> npfloat \<Rightarrow> npfloat \<Rightarrow> int \<Rightarrow> nat
     \<Rightarrow> py_error + npfloat list list list" where
  "spectra_of_row data Nfreq retain_dc xsp ysp NsegY i =
     (case xsp of
        NonFin \<Rightarrow> Inl (ValueError ''cannot convert float NaN to integer'')
      | Fin s \<Rightarrow>
          collect (map (spectrum_of_subimage data Nfreq retain_dc (np_round (real i * s)) ysp)
                       [0..<nat NsegY]))"


section \<open>rmsripple.py\<close>












section \<open>psd2wfe.py\<close>

text \<open>
  \<^verbatim>\<open>def psd2wfe(psd, rms = 0, pv = 0.25, circular = False, oversize = 1.0,\<close>
  \<^verbatim>\<open>            keep_defocus = False, verbose = False)\<close>

  \<^bold>\<open>The random numbers.\<close> The phases come from \<^verbatim>\<open>np.random.rand(2 * N, 2 * N)\<close>, the
  generator that NumPy keeps for the whole process; the function has no argument for a
  generator or a seed. The state of that generator is modelled by the numbers it will
  return, in order; a call of \<^verbatim>\<open>rand\<close> takes as many as the array has elements (row by
  row) and leaves the rest.
\<close>

type_synonym rng = "nat \<Rightarrow> real"

definition np_random_rand :: "rng \<Rightarrow> nat \<Rightarrow> nat \<Rightarrow> (pos \<Rightarrow> real) \<times> rng" where
  "np_random_rand g rows cols = ((\<lambda>p. g (fst p * cols + snd p)), (\<lambda>i. g (i + rows * cols)))"

text \<open>
  \<^bold>\<open>The transform.\<close>
  \<^verbatim>\<open>ft_power = interpolate(psd, frequencies, cubic= - 0.5) > 0\<close>
  \<^verbatim>\<open>ft_amplitudes = np.sqrt(ft_power)\<close>
  \<^verbatim>\<open>ft_phases = 2.0 * np.pi * np.random.rand(2 * N, 2 * N)\<close>
  \<^verbatim>\<open>ft_complex = ft_amplitudes * np.exp(np.sqrt(1.0j) * ft_phases)\<close>
  \<^verbatim>\<open>wfe_big = np.fft.fft2d(ft_complex).real\<close>
  \<^verbatim>\<open>wfe1 = wfe_big[:N-1, :N-1]\<close>
  The routine \<^verbatim>\<open>interpolate\<close> is a library routine of IDL; the repository neither
  defines nor imports it. A function bound to that name is the parameter \<open>interpolate\<close>
  of the definitions below: \<open>interpolate psd p\<close> is the interpolated power at the bin
  \<open>p\<close> of the \<open>2N \<times> 2N\<close> grid. In Python the comparison \<^verbatim>\<open>> 0\<close> is a truth value, and
  its square root is 1 or 0.
\<close>

definition ft_amplitudes :: "(real list \<Rightarrow> pos \<Rightarrow> real) \<Rightarrow> real list \<Rightarrow> pos \<Rightarrow> real" where
  "ft_amplitudes interpolate psd p = sqrt (if interpolate psd p > 0 then 1 else 0)"

definition ft_complex ::
  "(real list \<Rightarrow> pos \<Rightarrow> real) \<Rightarrow> real list \<Rightarrow> (pos \<Rightarrow> real) \<Rightarrow> pos \<Rightarrow> complex" where
  "ft_complex interpolate psd rand p =
     complex_of_real (ft_amplitudes interpolate psd p)
       * exp (csqrt \<i> * complex_of_real (2 * pi * rand p))"

text \<open>
  \<^bold>\<open>The routine as written.\<close> The statements run in order until one raises.
  \<^item> Line 73, \<^verbatim>\<open>np.fft.fftfreq(2 * N)\<close>, divides by \<open>2N\<close>: \<^verbatim>\<open>ZeroDivisionError\<close> for an
    empty spectrum.
  \<^item> Line 75 looks up \<^verbatim>\<open>interpolate\<close>: \<^verbatim>\<open>NameError\<close> when nothing is bound to the name
    (\<open>None\<close>); otherwise the bound function is called (\<open>Some\<close>).
  \<^item> Line 81 takes \<open>(2N)\<^sup>2\<close> numbers from the process-wide generator.
  \<^item> Line 85 looks up \<^verbatim>\<open>np.fft.fft2d\<close>, which NumPy does not have:
    \<^verbatim>\<open>AttributeError\<close>, for every argument.

  No statement after line 85 is reached. They would raise too: line 96 calls
  \<^verbatim>\<open>fit_spherical_wave(wfe1)\<close> without its second argument, line 98 applies
  \<^verbatim>\<open>np.complex\<close> to an array, and lines 124 and 134 index the \<open>(N - 1) \<times> (N - 1)\<close> map
  with the positions of an \<open>N \<times> N\<close> grid.

  The result is the map or the exception, together with the state in which the call
  leaves the process-wide generator. The state \<open>np_random_state\<close> is not an argument of
  the Python function: the arguments are the seven of the signature.
\<close>

definition np_fft_fft2d :: "complex list list \<Rightarrow> py_error + complex list list" where
  "np_fft_fft2d a = Inl (AttributeError ''module numpy.fft has no attribute fft2d'')"

text \<open>Lines 71 to 83: the array \<^verbatim>\<open>ft_complex\<close> and the generator state after line 81.\<close>

definition psd2wfe_spectrum ::
  "(real list \<Rightarrow> pos \<Rightarrow> real) \<Rightarrow> real list \<Rightarrow> rng \<Rightarrow> complex list list \<times> rng" where
  "psd2wfe_spectrum interpolate psd np_random_state =
     (let N = length psd;
          (rand, g') = np_random_rand np_random_state (2 * N) (2 * N)
      in (tabulate2 (2 * N) (2 * N) (ft_complex interpolate psd rand), g'))"

definition psd2wfe ::
  "(real list \<Rightarrow> pos \<Rightarrow> real) option \<Rightarrow> real list \<Rightarrow> real \<Rightarrow> real \<Rightarrow> bool \<Rightarrow> real \<Rightarrow> bool \<Rightarrow> bool
     \<Rightarrow> rng \<Rightarrow> (py_error + complex list list) \<times> rng" where
  "psd2wfe interpolate psd rms pv circular oversize keep_defocus verbose np_random_state =
     (if length psd = 0
      then (Inl (ZeroDivisionError ''float division by zero''), np_random_state)
      else case interpolate of
             None \<Rightarrow> (Inl (NameError ''name interpolate is not defined''), np_random_state)
           | Some f \<Rightarrow>
               (let (ft, g') = psd2wfe_spectrum f psd np_random_state
                in (np_fft_fft2d ft, g')))"

section \<open>psd2wfe.py with the raising lines repaired\<close>

text \<open>
  The rest of the routine, read as follows: a function is bound to \<^verbatim>\<open>interpolate\<close>;
  \<^verbatim>\<open>np.fft.fft2d\<close> is \<^verbatim>\<open>np.fft.fft2\<close>; the missing argument of
  \<^verbatim>\<open>fit_spherical_wave\<close> is a parameter; \<^verbatim>\<open>np.complex\<close> converts element by element;
  the aperture positions are those of the cropped map. This is not what the interpreter
  runs; it shows what the remaining lines compute.
\<close>

definition wfe1 ::
  "(real list \<Rightarrow> pos \<Rightarrow> real) \<Rightarrow> real list \<Rightarrow> (pos \<Rightarrow> real) \<Rightarrow> real list list" where
  "wfe1 interpolate psd rand =
     (let N = length psd;
          wfe_big = map (map Re) (fft2 (tabulate2 (2 * N) (2 * N) (ft_complex interpolate psd rand)))
      in py_slice2 wfe_big 0 (int N - 1) 0 (int N - 1))"

text \<open>
  \<^bold>\<open>The spherical wave.\<close>
  \<^verbatim>\<open>if keep_defocus: spherewave = 0.0\<close>
  \<^verbatim>\<open>else: spherewave = fit_spherical_wave(wfe1)\<close>
  \<^verbatim>\<open>wfe = np.complex(wfe1 - spherewave)\<close>
  The call gives no \<^verbatim>\<open>wfe_aperture\<close>; the parameter \<open>wfe_aperture\<close> of the model stands
  for it. The result is \<open>None\<close> when the fit is not finite.
\<close>

definition wfe_unnormalized ::
  "(real list \<Rightarrow> pos \<Rightarrow> real) \<Rightarrow> (pos \<Rightarrow> complex) \<Rightarrow> real list \<Rightarrow> (pos \<Rightarrow> real) \<Rightarrow> bool
     \<Rightarrow> complex list list option" where
  "wfe_unnormalized interpolate wfe_aperture psd rand keep_defocus =
     (let w = map (map complex_of_real) (wfe1 interpolate psd rand)
      in if keep_defocus then Some w
         else (case fit_spherical_wave w wfe_aperture of
                 None \<Rightarrow> None
               | Some spherewave \<Rightarrow> Some (residual w spherewave)))"

text \<open>
  \<^bold>\<open>The aperture.\<close>
  \<^verbatim>\<open>axis = np.linspace(-N//2, N//2, N)\<close>
  \<^verbatim>\<open>radius = np.sqrt(axis**2 + axis[:, np.newaxis]**2)\<close>
  \<^verbatim>\<open>aperture = np.where(radius < (oversize * 0.5 * N))\<close>
  \<^verbatim>\<open>crop = np.where(radius >= (oversize * 0.5 * N))\<close>, \<^verbatim>\<open>wfe[crop] = 1e9j\<close>
  and, without \<^verbatim>\<open>circular\<close>, \<^verbatim>\<open>aperture = np.mgrid[:N, :N]\<close>. These index an
  \<open>N \<times> N\<close> grid, and the map has been cropped to \<open>(N - 1) \<times> (N - 1)\<close>: the model keeps
  the positions that the map has.
\<close>

definition linspace :: "real \<Rightarrow> real \<Rightarrow> nat \<Rightarrow> real list" where
  "linspace a b n =
     (if n = 1 then [a] else map (\<lambda>i. a + real i * (b - a) / real (n - 1)) [0..<n])"

definition radius :: "nat \<Rightarrow> pos \<Rightarrow> real" where
  "radius N p =
     (let axis = linspace (- real ((N + 1) div 2)) (real (N div 2)) N
      in sqrt ((axis ! snd p)\<^sup>2 + (axis ! fst p)\<^sup>2))"

definition psd2wfe_aperture :: "nat \<Rightarrow> bool \<Rightarrow> real \<Rightarrow> pos list" where
  "psd2wfe_aperture N circular oversize =
     (if circular
      then filter (\<lambda>p. radius N p < oversize * (1 / 2) * real N) (positions (N - 1) (N - 1))
      else positions (N - 1) (N - 1))"

text \<open>
  \<^bold>\<open>The normalisation.\<close>
  \<^verbatim>\<open>wfe[aperture] -= wfe[aperture].mean()\<close>
  \<^verbatim>\<open>if rms: wfe[aperture] *= np.divide(rms, wfe[aperture].std())\<close>
  \<^verbatim>\<open>else: wfe[aperture] *= np.divide(pv, wfe[aperture].ptp())\<close>
  The standard deviation of NumPy is the root of the mean squared modulus of the
  deviations from the mean. The samples in the aperture have no imaginary part, and the
  peak-to-valley is that of their real parts. A zero divisor makes the factor, and with it
  every sample of the aperture, non-finite: \<open>None\<close>.
\<close>

definition mean_c :: "complex list \<Rightarrow> complex" where
  "mean_c zs = sum_list zs / of_nat (length zs)"

definition std :: "complex list \<Rightarrow> real" where
  "std zs = sqrt (sum_list (map (\<lambda>z. (cmod (z - mean_c zs))\<^sup>2) zs) / real (length zs))"

definition ptp :: "complex list \<Rightarrow> real" where
  "ptp zs = Max (set (map Re zs)) - Min (set (map Re zs))"

definition scale_factor :: "complex list \<Rightarrow> real \<Rightarrow> real \<Rightarrow> npfloat" where
  "scale_factor centred rms pv =
     (if rms \<noteq> 0 then np_divide rms (std centred) else np_divide pv (ptp centred))"

definition normalize_wfe ::
  "complex list list option \<Rightarrow> nat \<Rightarrow> pos list \<Rightarrow> real \<Rightarrow> real \<Rightarrow> complex option list list" where
  "normalize_wfe w n ap rms pv =
     tabulate2 n n
       (\<lambda>p. if p \<in> set ap
            then (case w of
                    None \<Rightarrow> None
                  | Some wfe \<Rightarrow>
                      (let zs = map (elem wfe) ap;
                           m = mean_c zs
                       in case scale_factor (map (\<lambda>z. z - m) zs) rms pv of
                            NonFin \<Rightarrow> None
                          | Fin c \<Rightarrow> Some ((elem wfe p - m) * complex_of_real c)))
            else Some (Complex 0 1000000000))"

text \<open>
  The function: the global generator state goes in and comes out; the printing of
  \<^verbatim>\<open>verbose\<close> does not change the result and is left out.
\<close>

definition psd2wfe_repaired ::
  "(real list \<Rightarrow> pos \<Rightarrow> real) \<Rightarrow> (pos \<Rightarrow> complex) \<Rightarrow> rng \<Rightarrow> real list \<Rightarrow> real \<Rightarrow> real \<Rightarrow> bool \<Rightarrow> real
     \<Rightarrow> bool \<Rightarrow> complex option list list \<times> rng" where
  "psd2wfe_repaired interpolate wfe_aperture g psd rms pv circular oversize keep_defocus =
     (let N = length psd;
          (rand, g') = np_random_rand g (2 * N) (2 * N)
      in (normalize_wfe (wfe_unnormalized interpolate wfe_aperture psd rand keep_defocus)
            (N - 1) (psd2wfe_aperture N circular oversize) rms pv,
          g'))"

text \<open>
  The samples of a returned map that lie in its aperture (imaginary part below 1; a NaN
  fails the comparison), and the statement that their real parts have mean 0 and root
  mean square \<open>r\<close>.
\<close>

definition aperture_samples :: "complex option list list \<Rightarrow> complex list" where
  "aperture_samples wfe =
     concat (map (\<lambda>s. case s of None \<Rightarrow> [] | Some z \<Rightarrow> if Im z < 1 then [z] else []) (concat wfe))"

definition normalized_to :: "real \<Rightarrow> complex option list list \<Rightarrow> bool" where
  "normalized_to r wfe \<longleftrightarrow>
     (let zs = aperture_samples wfe
      in zs \<noteq> [] \<and> sum_list (map Re zs) / real (length zs) = 0
         \<and> sqrt (sum_list (map (\<lambda>z. (Re z)\<^sup>2) zs) / real (length zs)) = r)"

section \<open>wfe2psf.py\<close>

text \<open>
  \<^verbatim>\<open>def wfe2psf(wfe, oversample = 4, f_ratio = 0.0, lam = 0.0)\<close>. The wavefront map is
  documented as a square N x N array, possibly complex, and the oversampling factor as an
  integer; the model takes it as a natural number.

  \<^bold>\<open>The routine as written.\<close> The first statement, line 56, is \<^verbatim>\<open>N = wfe.size()\<close>. The
  attribute \<^verbatim>\<open>size\<close> of an array is an integer, the number of its elements, and calling
  an integer raises \<^verbatim>\<open>TypeError\<close>, for every array. No other statement is reached. Two
  of them would raise too: line 65 looks up \<^verbatim>\<open>np.shift\<close>, which NumPy does not have
  (\<^verbatim>\<open>AttributeError\<close>), and line 78, \<^verbatim>\<open>f_ratio > 0.0 & lam > 0.0\<close>, applies \<^verbatim>\<open>&\<close> to
  two floats (\<^verbatim>\<open>TypeError\<close>).
\<close>

definition ndarray_size :: "'a list list \<Rightarrow> nat" where
  "ndarray_size a = length (concat a)"

definition py_call_int :: "nat \<Rightarrow> py_error + nat" where
  "py_call_int n = Inl (TypeError ''int object is not callable'')"

definition wfe2psf ::
  "complex list list \<Rightarrow> nat \<Rightarrow> real \<Rightarrow> real
     \<Rightarrow> py_error + (npfloat list list \<times> (real \<times> real) option)" where
  "wfe2psf wfe oversample f_ratio lam =
     (case py_call_int (ndarray_size wfe) of
        Inl e \<Rightarrow> Inl e
      | Inr N \<Rightarrow> Inl (AttributeError ''module numpy has no attribute shift''))"

section \<open>wfe2psf.py with the raising lines repaired\<close>

text \<open>
  The rest of the routine, read as follows. \<^verbatim>\<open>N = wfe.size()\<close> is the side of the map
  (the first dimension, as in the IDL original): the only reading under which the
  assignment to \<^verbatim>\<open>bigmap[:N, :N]\<close> is defined for a map of more than one pixel.
  \<^verbatim>\<open>np.shift(a, sx, sy)\<close> is IDL's cyclic shift, \<^verbatim>\<open>np.roll\<close> along both axes: the
  element at index \<open>i\<close> moves to index \<open>i + s\<close> modulo the length of the axis. The shift
  \<^verbatim>\<open>N/2\<close> is the integer quotient. The test \<^verbatim>\<open>f_ratio > 0.0 & lam > 0.0\<close> is the
  conjunction of the two comparisons. This is not what the interpreter runs; it shows
  what the remaining lines compute.
\<close>

definition np_shift :: "'a list list \<Rightarrow> int \<Rightarrow> int \<Rightarrow> 'a list list" where
  "np_shift a sx sy =
     (let Nx = fst (shape a); Ny = snd (shape a)
      in tabulate2 Nx Ny
           (\<lambda>(i, j). elem a (nat ((int i - sx) mod int Nx), nat ((int j - sy) mod int Ny))))"

text \<open>\<^verbatim>\<open>np.exp(wfe * 2.0j * np.pi)\<close>\<close>

definition exp_wfe :: "complex list list \<Rightarrow> complex list list" where
  "exp_wfe wfe = map (map (\<lambda>z. exp (z * (2 * \<i>) * complex_of_real pi))) wfe"

text \<open>
  \<^verbatim>\<open>bigmap[:N, :N] = ...\<close> assigns an array of \<open>N\<close> rows to an \<open>N x N\<close> block. NumPy
  accepts rows of length \<open>N\<close>, repeats the element of rows of length one, and raises
  \<^verbatim>\<open>ValueError\<close> for any other shape.
\<close>

definition broadcast :: "nat \<Rightarrow> 'a list list \<Rightarrow> py_error + 'a list list" where
  "broadcast N a =
     (if list_all (\<lambda>row. length row = N) a then Inr a
      else if list_all (\<lambda>row. length row = 1) a then Inr (map (\<lambda>row. replicate N (hd row)) a)
      else Inl (ValueError ''could not broadcast input array''))"

text \<open>
  \<^verbatim>\<open>bigmap = np.zeros([oversample*N, oversample*N], dtype = np.complex)\<close> with the field
  in its corner at the origin.
\<close>

definition bigmap :: "complex list list \<Rightarrow> nat \<Rightarrow> nat \<Rightarrow> complex list list" where
  "bigmap E N M = tabulate2 M M (\<lambda>(x, y). if x < N \<and> y < N then elem E (x, y) else 0)"

text \<open>
  The padded field is shifted by \<open>-N/2\<close>, transformed, squared in modulus, shifted back by
  \<open>N/2\<close> and cropped to \<^verbatim>\<open>[:N, :N]\<close>.
\<close>

definition intensity_small :: "complex list list \<Rightarrow> nat \<Rightarrow> nat \<Rightarrow> real list list" where
  "intensity_small E N oversample =
     (let M = oversample * N;
          shifted = np_shift (bigmap E N M) (- int (N div 2)) (- int (N div 2));
          Efield = fft2 shifted;
          intensity = map (map (\<lambda>z. (cmod z)\<^sup>2)) Efield
      in py_slice2 (np_shift intensity (int (N div 2)) (int (N div 2))) 0 (int N) 0 (int N))"

text \<open>
  \<^verbatim>\<open>psf = np.divide(intensity_small, intensity_small.sum())\<close>, and the optional outputs
  \<^verbatim>\<open>dx = np.divide(lam * f_ratio, oversample)\<close> and \<^verbatim>\<open>xarr = ( (N) - 0.5 * N) * dx\<close>,
  returned when both \<open>f_ratio\<close> and \<open>lam\<close> are positive.

  When \<open>oversample * N\<close> is zero the padded array is empty and the routine raises
  \<^verbatim>\<open>ValueError\<close>, in the assignment or at the latest in the transform of an empty array.
\<close>

definition wfe2psf_repaired ::
  "complex list list \<Rightarrow> nat \<Rightarrow> real \<Rightarrow> real
     \<Rightarrow> py_error + (npfloat list list \<times> (real \<times> real) option)" where
  "wfe2psf_repaired wfe oversample f_ratio lam =
     (let N = length wfe
      in if oversample * N = 0 then Inl (ValueError ''Invalid number of FFT data points'')
         else case broadcast N (exp_wfe wfe) of
                Inl e \<Rightarrow> Inl e
              | Inr E \<Rightarrow>
                  let small = intensity_small E N oversample;
                      psf = map (map (\<lambda>x. np_divide x (sum2 small))) small;
                      dx = lam * f_ratio / real oversample
                  in Inr (psf, if 0 < f_ratio \<and> 0 < lam
                               then Some (dx, (real N - 1 / 2 * real N) * dx) else None))"

section \<open>Properties of wfe2strehl\<close>

lemma sum2_concat: "sum2 a = sum_list (concat a)"
  by (induction a) (simp_all add: sum2_def)

lemma concat_Efield:
  "concat (Efield wfe) = map (\<lambda>z. exp (2 * \<i> * complex_of_real pi * z)) (concat wfe)"
  by (simp add: Efield_def map_concat)

lemma concat_cmod_Efield:
  "concat (map (map cmod) (Efield wfe))
     = map (\<lambda>z. cmod (exp (2 * \<i> * complex_of_real pi * z))) (concat wfe)"
  by (simp add: Efield_def map_concat comp_def)

lemma cmod_sum_list_le: "cmod (sum_list (map f xs)) \<le> sum_list (map (\<lambda>x. cmod (f x)) xs)"
proof (induction xs)
  case Nil
  then show ?case by simp
next
  case (Cons x xs)
  have "cmod (f x + sum_list (map f xs)) \<le> cmod (f x) + cmod (sum_list (map f xs))"
    by (rule norm_triangle_ineq)
  with Cons show ?case by simp
qed

lemma sum_list_pos_real:
  fixes f :: "'a \<Rightarrow> real"
  assumes "xs \<noteq> []" and "\<And>x. 0 < f x"
  shows "0 < sum_list (map f xs)"
  using assms(1)
proof (induction xs)
  case Nil
  then show ?case by simp
next
  case (Cons x xs)
  have "0 \<le> sum_list (map f xs)"
    by (rule sum_list_nonneg) (use assms(2) in \<open>auto intro: less_imp_le\<close>)
  moreover have "0 < f x" by (rule assms(2))
  ultimately show ?case by simp
qed

lemma amplitude_sum_pos:
  assumes "concat wfe \<noteq> []"
  shows "0 < sum2 (map (map cmod) (Efield wfe))"
  unfolding sum2_concat concat_cmod_Efield
  by (rule sum_list_pos_real [OF assms]) simp

lemma field_sum_le:
  "cmod (sum2 (Efield wfe)) \<le> sum2 (map (map cmod) (Efield wfe))"
  unfolding sum2_concat concat_Efield concat_cmod_Efield
  by (rule cmod_sum_list_le)

text \<open>
  Claim C3. For a map with at least one sample the exact Strehl ratio is a finite number
  between 0 and 1, and it is 1 when every sample is 0 (real part uniformly 0, imaginary
  part 0 everywhere: a fully transmissive aperture).
\<close>

theorem wfe2strehl_bounds:
  assumes "concat wfe \<noteq> []"
  shows "(\<exists>s. wfe2strehl wfe = Fin s \<and> 0 \<le> s \<and> s \<le> 1) \<and>
         ((\<forall>z \<in> set (concat wfe). z = 0) \<longrightarrow> wfe2strehl wfe = Fin 1)"
proof
  let ?n = "cmod (sum2 (Efield wfe))"
  let ?d = "sum2 (map (map cmod) (Efield wfe))"
  have d: "0 < ?d" by (rule amplitude_sum_pos [OF assms])
  have n: "?n \<le> ?d" by (rule field_sum_le)
  have val: "wfe2strehl wfe = Fin ((?n / ?d) * (?n / ?d))"
    using d by (simp add: wfe2strehl_def np_divide_def)
  have q0: "0 \<le> ?n / ?d" using d by simp
  have q1: "?n / ?d \<le> 1" using d n by simp
  have "(?n / ?d) * (?n / ?d) \<le> 1 * 1"
    by (rule mult_mono [OF q1 q1]) (use q0 in simp_all)
  then show "\<exists>s. wfe2strehl wfe = Fin s \<and> 0 \<le> s \<and> s \<le> 1"
    using val q0 by auto
  show "(\<forall>z \<in> set (concat wfe). z = 0) \<longrightarrow> wfe2strehl wfe = Fin 1"
  proof
    assume z: "\<forall>z \<in> set (concat wfe). z = 0"
    have z0: "x = 0" if "x \<in> set (concat wfe)" for x
      using z that by blast
    have e: "map (\<lambda>z. exp (2 * \<i> * complex_of_real pi * z)) (concat wfe)
               = map (\<lambda>z. 1) (concat wfe)"
      by (rule map_cong [OF refl], drule z0, simp)
    have m: "map (\<lambda>z. cmod (exp (2 * \<i> * complex_of_real pi * z))) (concat wfe)
               = map (\<lambda>z. 1) (concat wfe)"
      by (rule map_cong [OF refl], drule z0, simp)
    have len: "0 < length (concat wfe)" using assms by simp
    have "?n = real (length (concat wfe))"
      unfolding sum2_concat concat_Efield e by (simp add: sum_list_triv)
    moreover have "?d = real (length (concat wfe))"
      unfolding sum2_concat concat_cmod_Efield m by (simp add: sum_list_triv)
    ultimately have q: "?n / ?d = 1" using len by simp
    show "wfe2strehl wfe = Fin 1" unfolding val q by simp
  qed
qed

theorem wfe2strehl_bounds_witness:
  "concat [[0, 0], [0, 0 :: complex]] \<noteq> [] \<and>
   list_all (\<lambda>z. z = 0) (concat [[0, 0], [0, 0 :: complex]]) \<and>
   wfe2strehl [[0, 0], [0, 0]] = Fin 1"
  using wfe2strehl_bounds [of "[[0, 0], [0, 0]]"] by simp

lemma piston_factor:
  "exp (2 * \<i> * complex_of_real pi * (z + complex_of_real c))
     = exp (2 * \<i> * complex_of_real pi * z) * cis (2 * pi * c)"
proof -
  have "2 * \<i> * complex_of_real pi * (z + complex_of_real c)
          = 2 * \<i> * complex_of_real pi * z + \<i> * complex_of_real (2 * pi * c)"
    by (simp add: algebra_simps)
  then show ?thesis
    by (simp only: exp_add cis_conv_exp)
qed

lemma concat_add_piston:
  "concat (add_piston c wfe) = map (\<lambda>z. z + complex_of_real c) (concat wfe)"
  by (simp add: add_piston_def map_concat)

text \<open>
  Claim C10. The exact Strehl ratio does not change when a real constant is added to
  every sample of the map: the factor of unit modulus leaves both the modulus of the
  summed field and the summed moduli as they were.
\<close>

theorem wfe2strehl_piston_invariant:
  "wfe2strehl (add_piston c wfe) = wfe2strehl wfe"
proof -
  let ?e = "\<lambda>z. exp (2 * \<i> * complex_of_real pi * z)"
  have s: "sum2 (Efield (add_piston c wfe)) = sum2 (Efield wfe) * cis (2 * pi * c)"
    unfolding sum2_concat concat_Efield concat_add_piston
    by (simp add: comp_def piston_factor sum_list_mult_const)
  have a: "sum2 (map (map cmod) (Efield (add_piston c wfe)))
             = sum2 (map (map cmod) (Efield wfe))"
    unfolding sum2_concat concat_cmod_Efield concat_add_piston
    by (simp add: comp_def piston_factor norm_mult)
  show ?thesis
    unfolding wfe2strehl_def s a by (simp add: norm_mult)
qed

section \<open>Properties of periodogram\_fft and powerspec\<close>

lemma upt_3: "[0..<3] = [0, 1, 2]"
  by (simp add: upt_rec)

lemma hanning_3: "hanning 3 = [0, 1, 0]"
  by (simp add: hanning_def upt_3)






lemma powerspec_raises_below_4:
  "Nfreq < 4 \<Longrightarrow> \<exists>e. powerspec data Nfreq retain_dc = Inl e"
  by (simp add: powerspec_def)








section \<open>Properties of fit\_spherical\_wave\<close>

text \<open>Each basis map has zero mean over the aperture, and keeps it when it is scaled:
  the factor \<^verbatim>\<open>b[aperture].sum()\<close> of every correction term is 0, and the fitted
  surface is the piston term alone.\<close>

lemma sum_remove_bias: "ap \<noteq> [] \<Longrightarrow> sum_list (map (remove_bias b ap) ap) = 0"
  by (simp add: remove_bias_def sum_list_subtractf sum_list_triv)

lemma sum_unit_norm: "sum_list (map (unit_norm b ap) ap) = sum_list (map b ap) / norm_over b ap"
  by (simp add: unit_norm_def divide_inverse sum_list_mult_const)

lemma basis_sums_zero:
  assumes "ap \<noteq> []"
  shows "sum_list (map (b1 ap) ap) = 0" "sum_list (map (b2 ap) ap) = 0"
    "sum_list (map (b3 ap) ap) = 0"
  using assms by (simp_all add: b1_def b2_def b3_def sum_unit_norm sum_remove_bias)

lemma fit_is_piston:
  "fit_spherical_wave wfe wa = Some s \<Longrightarrow>
     s = tabulate2 (fst (shape wfe)) (snd (shape wfe)) (\<lambda>p. piston wfe (aperture wfe))"
  by (auto simp: fit_spherical_wave_def Let_def fit_defined_def basis_sums_zero split: if_splits)

definition tip3 :: "complex list list" where
  "tip3 = [[0, 0, 0], [1, 1, 1], [2, 2, 2]]"

definition grid3 :: "pos list" where
  "grid3 = [(0, 0), (0, 1), (0, 2), (1, 0), (1, 1), (1, 2), (2, 0), (2, 1), (2, 2)]"

lemma positions_3: "positions 3 3 = grid3"
  by (simp add: positions_def upt_3 grid3_def)

lemma shape_tip3: "shape tip3 = (3, 3)"
  by (simp add: shape_def tip3_def)

lemma aperture_tip3: "aperture tip3 = grid3"
  unfolding aperture_def shape_tip3 fst_conv snd_conv positions_3
  by (simp add: grid3_def tip3_def elem_def)

lemma xp_grid3: "map xp grid3 = [0, 0, 0, 1, 1, 1, 2, 2, 2]"
  by (simp add: grid3_def xp_def)

lemma yp_grid3: "map yp grid3 = [0, 1, 2, 0, 1, 2, 0, 1, 2]"
  by (simp add: grid3_def yp_def)

lemma remove_bias_map:
  "map (remove_bias b ap) ap = map (\<lambda>x. x - sum_list (map b ap) / real (length ap)) (map b ap)"
  by (simp add: remove_bias_def)

lemma norm_over_map: "norm_over b ap = sqrt (sum_list (map (\<lambda>x. x\<^sup>2) (map b ap)))"
  by (simp add: norm_over_def comp_def)

lemma unit_norm_map: "map (unit_norm b ap) ap = map (\<lambda>x. x / norm_over b ap) (map b ap)"
  by (simp add: unit_norm_def)

lemma len_grid3: "length grid3 = 9"
  by (simp add: grid3_def)

lemma tip_centered: "map (remove_bias xp grid3) grid3 = [-1, -1, -1, 0, 0, 0, 1, 1, 1]"
  unfolding remove_bias_map xp_grid3 len_grid3 by simp

lemma tilt_centered: "map (remove_bias yp grid3) grid3 = [-1, 0, 1, -1, 0, 1, -1, 0, 1]"
  unfolding remove_bias_map yp_grid3 len_grid3 by simp

lemma tip_norm: "norm_over (remove_bias xp grid3) grid3 = sqrt 6"
  unfolding norm_over_map tip_centered by simp

lemma tilt_norm: "norm_over (remove_bias yp grid3) grid3 = sqrt 6"
  unfolding norm_over_map tilt_centered by simp

lemma b1_grid3:
  "map (b1 grid3) grid3
     = [- 1 / sqrt 6, - 1 / sqrt 6, - 1 / sqrt 6, 0, 0, 0, 1 / sqrt 6, 1 / sqrt 6, 1 / sqrt 6]"
  unfolding b1_def unit_norm_map tip_centered tip_norm by simp

lemma b2_grid3:
  "map (b2 grid3) grid3
     = [- 1 / sqrt 6, 0, 1 / sqrt 6, - 1 / sqrt 6, 0, 1 / sqrt 6, - 1 / sqrt 6, 0, 1 / sqrt 6]"
  unfolding b2_def unit_norm_map tilt_centered tilt_norm by simp

lemma map2_plus: "map (\<lambda>p. f p + g p) ps = map2 (+) (map f ps) (map g ps)"
  by (induction ps) simp_all

lemma defocus_grid3:
  "map (defocus grid3) grid3 = [1 / 3, 1 / 6, 1 / 3, 1 / 6, 0, 1 / 6, 1 / 3, 1 / 6, 1 / 3]"
proof -
  have "map (defocus grid3) grid3
          = map2 (+) (map (\<lambda>x. x\<^sup>2) (map (b1 grid3) grid3)) (map (\<lambda>x. x\<^sup>2) (map (b2 grid3) grid3))"
    unfolding defocus_def by (simp add: grid3_def)
  also have "\<dots> = [1 / 3, 1 / 6, 1 / 3, 1 / 6, 0, 1 / 6, 1 / 3, 1 / 6, 1 / 3]"
    unfolding b1_grid3 b2_grid3 by (simp add: power2_eq_square)
  finally show ?thesis .
qed

lemma defocus_centered:
  "map (remove_bias (defocus grid3) grid3) grid3
     = [1 / 9, - 1 / 18, 1 / 9, - 1 / 18, - 2 / 9, - 1 / 18, 1 / 9, - 1 / 18, 1 / 9]"
  unfolding remove_bias_map defocus_grid3 len_grid3 by simp

lemma defocus_norm: "norm_over (remove_bias (defocus grid3) grid3) grid3 = 1 / 3"
proof -
  have "norm_over (remove_bias (defocus grid3) grid3) grid3 = sqrt ((1 / 3)\<^sup>2)"
    unfolding norm_over_map defocus_centered by (simp add: power2_eq_square)
  then show ?thesis by (simp del: power_divide)
qed

lemma fit_defined_grid3: "fit_defined grid3"
  unfolding fit_defined_def tip_norm tilt_norm defocus_norm by (simp add: grid3_def)

lemma piston_tip3: "piston tip3 grid3 = 1"
  by (simp add: piston_def grid3_def tip3_def elem_def)

lemma fit_value:
  assumes "fit_defined (aperture wfe)"
  shows "fit_spherical_wave wfe wa
           = Some (tabulate2 (fst (shape wfe)) (snd (shape wfe)) (\<lambda>p. piston wfe (aperture wfe)))"
proof -
  have "aperture wfe \<noteq> []" using assms by (simp add: fit_defined_def)
  then show ?thesis
    using assms by (simp add: fit_spherical_wave_def Let_def basis_sums_zero)
qed

lemma fit_tip3:
  "fit_spherical_wave tip3 wa = Some [[1, 1, 1], [1, 1, 1], [1, 1, 1]]"
proof -
  have "fit_defined (aperture tip3)"
    unfolding aperture_tip3 by (rule fit_defined_grid3)
  then have "fit_spherical_wave tip3 wa = Some (tabulate2 3 3 (\<lambda>p. piston tip3 grid3))"
    using fit_value [of tip3 wa] by (simp add: shape_tip3 aperture_tip3)
  then show ?thesis
    by (simp add: piston_tip3 tabulate2_def upt_3)
qed

lemma residual_tip3:
  "map (\<lambda>p. Re (elem (residual tip3 [[1, 1, 1], [1, 1, 1], [1, 1, 1]]) p)) grid3
     = [-1, -1, -1, 0, 0, 0, 1, 1, 1]"
  by (simp add: residual_def tip3_def grid3_def elem_def)

lemma projection_map:
  "projection r b ap = sum_list (map2 (*) (map (\<lambda>p. Re (elem r p)) ap) (map b ap))"
  unfolding projection_def by (induction ap) simp_all

text \<open>
  Claim C4. The map \<open>tip3\<close> is a pure tip over a full 3 x 3 aperture
  (\<open>wfe[i][j] = i\<close>). Whatever is passed for \<^verbatim>\<open>wfe_aperture\<close>, the linear fit is the
  constant 1 (the piston), and the residual still has the projection \<open>sqrt 6\<close> onto the
  tip basis map \<open>b1\<close>.
\<close>

theorem fit_spherical_wave_leaves_tip:
  "fit_spherical_wave tip3 wa = Some [[1, 1, 1], [1, 1, 1], [1, 1, 1]] \<and>
   projection (residual tip3 [[1, 1, 1], [1, 1, 1], [1, 1, 1]])
     (b1 (aperture tip3)) (aperture tip3) = sqrt 6"
proof
  show "fit_spherical_wave tip3 wa = Some [[1, 1, 1], [1, 1, 1], [1, 1, 1]]"
    by (rule fit_tip3)
  have "projection (residual tip3 [[1, 1, 1], [1, 1, 1], [1, 1, 1]]) (b1 grid3) grid3
          = 6 / sqrt 6"
    unfolding projection_map residual_tip3 b1_grid3 by simp
  also have "\<dots> = sqrt 6"
    by (simp add: real_div_sqrt)
  finally show "projection (residual tip3 [[1, 1, 1], [1, 1, 1], [1, 1, 1]])
     (b1 (aperture tip3)) (aperture tip3) = sqrt 6"
    unfolding aperture_tip3 .
qed

section \<open>Properties of rmsripple\<close>








lemma fft2_spike:
  "map (map cmod) (fft2 [[0, 0, 0], [0, complex_of_real e, 0], [0, 0, 0]])
     = replicate 3 (replicate 3 \<bar>e\<bar>)"
  by (simp add: fft2_def shape_def tabulate2_def positions_def upt_3 elem_def twiddle_def
      norm_mult numeral_3_eq_3)

lemma shape_3x3: "shape [[a, b, c], [d, e, f], [g, h, i]] = (3, 3)"
  by (simp add: shape_def)

lemma power2d_3x3:
  "power2d [[a, b, c], [d, e, f], [g, h, i]]
     = replicate 3 (replicate 3 (e\<^sup>2 * (71111111 / 10000000) * 3 * 3))"
proof -
  have w: "tabulate2 3 3 (\<lambda>(i', j). complex_of_real
              (elem [[a, b, c], [d, e, f], [g, h, i]] (i', j) * hanning 3 ! j * hanning 3 ! i'))
             = [[0, 0, 0], [0, complex_of_real e, 0], [0, 0, 0]]"
    by (simp add: tabulate2_def upt_3 hanning_3 elem_def)
  have "power2d [[a, b, c], [d, e, f], [g, h, i]]
          = map (map (\<lambda>r. r\<^sup>2 * (71111111 / 10000000) * 3 * 3))
                (map (map cmod) (fft2 [[0, 0, 0], [0, complex_of_real e, 0], [0, 0, 0]]))"
    unfolding power2d_def Let_def shape_3x3 fst_conv snd_conv w by (simp add: comp_def)
  also have "\<dots> = replicate 3 (replicate 3 (e\<^sup>2 * (71111111 / 10000000) * 3 * 3))"
    unfolding fft2_spike by (simp add: numeral_3_eq_3)
  finally show ?thesis .
qed

lemma periodogram_fft2_3x3:
  "periodogram_fft2 [[Fin a, Fin b, Fin c], [Fin d, Fin e, Fin f], [Fin g, Fin h, Fin i]] (Some False)
     = replicate 3 (replicate 3
         (Fin ((e - (a + b + c + d + e + f + g + h + i) / 9)\<^sup>2 * (71111111 / 10000000) * 3 * 3)))"
proof -
  have "data_corrected2 [[a, b, c], [d, e, f], [g, h, i]] False
     = (let m = (a + b + c + d + e + f + g + h + i) / 9
        in [[a - m, b - m, c - m], [d - m, e - m, f - m], [g - m, h - m, i - m]])"
    by (simp add: data_corrected2_def mean2_def Let_def)
  then show ?thesis
    by (simp add: periodogram_fft2_def retain_dc_given_def Let_def power2d_3x3)
qed


definition data5 :: "npfloat list list" where
  "data5 = [[Fin 0, Fin 0, Fin 0, Fin 0, Fin 0], [Fin 0, Fin 9, Fin 0, Fin 0, Fin 0],
            [Fin 0, Fin 0, Fin 0, Fin 0, Fin 0], [Fin 0, Fin 0, Fin 0, Fin 0, Fin 0],
            [Fin 0, Fin 0, Fin 0, Fin 0, Fin 0]]"


lemma rounds_of_5:
  "np_round (real 0 * (999999 / 1000000)) = 0"
  "np_round (real 1 * (999999 / 1000000)) = 1"
  "np_round 4 = 4"
  by (simp_all add: np_round_def Let_def)

lemma slices_of_5:
  "py_slice [a0, a1, a2, a3, a4] 0 (0 + 4 - 1) = [a0, a1, a2]"
  "py_slice [a0, a1, a2, a3, a4] 1 (1 + 4 - 1) = [a1, a2, a3]"
  by (simp_all add: py_slice_def Let_def)

definition unit_power :: real where
  "unit_power = 71111111 / 10000000 * 3 * 3"

lemma sub00: "spectrum_of_subimage data5 4 False 0 (Fin (999999 / 1000000)) 0
   = Inr (replicate 3 (replicate 3 (Fin (64 * unit_power))))"
  unfolding spectrum_of_subimage_def npfloat.case Let_def rounds_of_5 data5_def py_slice2_def
    slices_of_5 list.map periodogram_fft2_3x3
  by (simp add: unit_power_def)

lemma sub01: "spectrum_of_subimage data5 4 False 0 (Fin (999999 / 1000000)) 1
   = Inr (replicate 3 (replicate 3 (Fin unit_power)))"
  unfolding spectrum_of_subimage_def npfloat.case Let_def rounds_of_5 data5_def py_slice2_def
    slices_of_5 list.map periodogram_fft2_3x3
  by (simp add: unit_power_def)



lemma upt_2: "[0..<2] = [0, 1]"
  by (simp add: upt_rec)

lemma row0: "spectra_of_row data5 4 False (Fin (999999 / 1000000)) (Fin (999999 / 1000000)) 2 0
  = Inr [replicate 3 (replicate 3 (Fin (64 * unit_power))), replicate 3 (replicate 3 (Fin unit_power))]"
  unfolding spectra_of_row_def npfloat.case rounds_of_5
  using sub00 sub01 by (simp add: upt_2)












section \<open>Properties of the repaired psd2wfe\<close>

text \<open>The cropped map is square, with side \<open>N - 1\<close>.\<close>

lemma py_slice_0: "0 \<le> k \<Longrightarrow> py_slice xs 0 k = take (nat k) xs"
  by (auto simp: py_slice_def Let_def min_def)

lemma shape_tabulate2: "0 < Nx \<Longrightarrow> shape (tabulate2 Nx Ny f) = (Nx, Ny)"
proof -
  assume "0 < Nx"
  then have "[0..<Nx] = 0 # [1..<Nx]" by (simp add: upt_conv_Cons)
  with \<open>0 < Nx\<close> show ?thesis by (simp add: shape_def tabulate2_def)
qed

lemma take_upt_0: "take k [0..<n] = [0..<min k n]"
proof (cases "k \<le> n")
  case True
  then show ?thesis by (simp add: min_def)
next
  case False
  then show ?thesis by (simp add: min_def)
qed

lemma take_tabulate2:
  "map (take k) (take k (tabulate2 Nx Ny f)) = tabulate2 (min k Nx) (min k Ny) f"
  by (simp add: tabulate2_def take_map take_upt_0)

lemma fft2_tab: "0 < Nx \<Longrightarrow> \<exists>h. fft2 (tabulate2 Nx Ny f) = tabulate2 Nx Ny h"
  unfolding fft2_def Let_def shape_tabulate2 fst_conv snd_conv by blast

lemma wfe1_shape: "\<exists>h. wfe1 interp psd rand = tabulate2 (length psd - 1) (length psd - 1) h"
proof (cases "length psd = 0")
  case True
  then show ?thesis by (simp add: wfe1_def Let_def tabulate2_def py_slice2_def py_slice_def fft2_def shape_def)
next
  case False
  then obtain h where h: "fft2 (tabulate2 (2 * length psd) (2 * length psd) (ft_complex interp psd rand))
         = tabulate2 (2 * length psd) (2 * length psd) h"
    using fft2_tab [of "2 * length psd"] by auto
  have m: "map (map Re) (tabulate2 a b h) = tabulate2 a b (Re \<circ> h)" for a b
    by (simp add: tabulate2_def comp_def)
  have k: "0 \<le> int (length psd) - 1" using False by simp
  have n: "nat (int (length psd) - 1) = length psd - 1" by simp
  have mn: "min (length psd - 1) (2 * length psd) = length psd - 1" by simp
  have "wfe1 interp psd rand = tabulate2 (length psd - 1) (length psd - 1) (Re \<circ> h)"
    unfolding wfe1_def Let_def h m py_slice2_def py_slice_0 [OF k] n take_tabulate2 mn ..
  then show ?thesis by blast
qed


text \<open>The returned map is the normalisation of the unnormalised map over the aperture.\<close>

lemma psd2wfe_repaired_fst:
  "fst (psd2wfe_repaired I wa g psd rms pv c ov k)
     = normalize_wfe
         (wfe_unnormalized I wa psd (fst (np_random_rand g (2 * length psd) (2 * length psd))) k)
         (length psd - 1) (psd2wfe_aperture (length psd) c ov) rms pv"
  by (simp add: psd2wfe_repaired_def Let_def split_beta)

lemma tabulate2_1: "tabulate2 1 1 f = [[f (0, 0)]]"
  by (simp add: tabulate2_def)

lemma positions_1: "positions 1 1 = [(0, 0)]"
  by (simp add: positions_def)

text \<open>A spectrum of two elements gives a map of a single sample: the sample equals the
  mean, the standard deviation is 0, and the scaled sample is not finite.\<close>

lemma single_sample_not_finite:
  assumes "length psd = 2" and "rms \<noteq> 0"
  shows "fst (psd2wfe_repaired I wa g psd rms pv False ov True) = [[None]]"
proof -
  let ?rand = "fst (np_random_rand g (2 * length psd) (2 * length psd))"
  have n: "length psd - 1 = 1" using assms(1) by simp
  obtain h where "wfe1 I psd ?rand = tabulate2 (length psd - 1) (length psd - 1) h"
    using wfe1_shape by blast
  then have h: "wfe1 I psd ?rand = [[h (0, 0)]]"
    unfolding n tabulate2_1 .
  have u: "wfe_unnormalized I wa psd ?rand True = Some [[complex_of_real (h (0, 0))]]"
    by (simp add: wfe_unnormalized_def h)
  have a: "psd2wfe_aperture (length psd) False ov = [(0, 0)]"
    unfolding psd2wfe_aperture_def n positions_1 by simp
  have s: "scale_factor [0] rms pv = NonFin"
    using assms(2) by (simp add: scale_factor_def std_def mean_c_def np_divide_def)
  have "normalize_wfe (Some [[complex_of_real (h (0, 0))]]) 1 [(0, 0)] rms pv = [[None]]"
    unfolding normalize_wfe_def tabulate2_1
    by (simp add: Let_def elem_def mean_c_def s)
  then show ?thesis
    unfolding psd2wfe_repaired_fst u a n .
qed

text \<open>The transform of a constant array: the twiddle factors of a non-zero frequency are
  the powers of a root of unity other than 1 and sum to 0.\<close>

lemma sum_list_concat_map:
  fixes xss :: "'a::monoid_add list list"
  shows "sum_list (concat xss) = sum_list (map sum_list xss)"
  by (induction xss) simp_all

lemma sum_list_positions:
  fixes f :: "pos \<Rightarrow> 'a::comm_monoid_add"
  shows "sum_list (map f (positions Nx Ny)) = (\<Sum>i<Nx. \<Sum>j<Ny. f (i, j))"
proof -
  have "sum_list (map f (positions Nx Ny))
          = sum_list (map (\<lambda>i. sum_list (map (\<lambda>j. f (i, j)) [0..<Ny])) [0..<Nx])"
    by (simp add: positions_def sum_list_concat_map comp_def map_concat)
  also have "\<dots> = (\<Sum>i<Nx. \<Sum>j<Ny. f (i, j))"
    by (simp add: interv_sum_list_conv_sum_set_nat atLeast0LessThan)
  finally show ?thesis .
qed

lemma twiddle_power: "twiddle M u x = (cis (- (2 * pi * real u / real M))) ^ x"
  by (simp add: twiddle_def DeMoivre algebra_simps)

lemma twiddle_root_not_1:
  assumes "0 < u" "u < M"
  shows "cis (- (2 * pi * real u / real M)) \<noteq> 1"
proof
  assume "cis (- (2 * pi * real u / real M)) = 1"
  then have "cos (- (2 * pi * real u / real M)) = 1"
    by (simp add: complex_eq_iff)
  then have "cos (2 * pi * real u / real M) = 1" by simp
  then obtain k :: int where k: "2 * pi * real u / real M = real_of_int k * 2 * pi"
    unfolding cos_one_2pi_int by blast
  have M: "0 < real M" using assms by simp
  from k have "(2 * pi) * (real u / real M) = (2 * pi) * real_of_int k"
    by (simp add: algebra_simps)
  then have "real u / real M = real_of_int k"
    using pi_gt_zero by (simp only: mult_cancel_left) simp
  then have e: "real u = real_of_int k * real M" using M by (simp add: field_simps)
  then have "real_of_int (int u) = real_of_int (k * int M)" by simp
  then have ki: "int u = k * int M" by (simp only: of_int_eq_iff)
  have "0 < k" 
  proof (rule ccontr)
    assume "\<not> 0 < k"
    then have "k * int M \<le> 0" by (simp add: mult_nonpos_nonneg)
    with ki assms(1) show False by simp
  qed
  then have "1 * int M \<le> k * int M"
    by (intro mult_right_mono) simp_all
  then have "int M \<le> k * int M" by simp
  with ki assms(2) show False by simp
qed

lemma twiddle_sum:
  assumes "u < M"
  shows "(\<Sum>x<M. twiddle M u x) = (if u = 0 then of_nat M else 0)"
proof (cases "u = 0")
  case True
  then show ?thesis by (simp add: twiddle_def)
next
  case False
  let ?w = "cis (- (2 * pi * real u / real M))"
  have w1: "?w \<noteq> 1" using twiddle_root_not_1 False assms by simp
  have M: "real M \<noteq> 0" using assms by simp
  have "?w ^ M = cis (real M * (- (2 * pi * real u / real M)))" by (simp only: DeMoivre)
  also have "real M * (- (2 * pi * real u / real M)) = - (2 * pi * real u)" using M by simp
  also have "cis (- (2 * pi * real u)) = 1"
    by (simp add: cis_cnj [symmetric] cis_multiple_2pi del: cis_cnj)
  finally have wM: "?w ^ M = 1" .
  have "(\<Sum>x<M. twiddle M u x) = (\<Sum>x<M. ?w ^ x)"
    unfolding twiddle_power ..
  also have "\<dots> = (?w ^ M - 1) / (?w - 1)"
    using w1 by (rule geometric_sum)
  also have "\<dots> = 0" by (simp add: wM)
  finally show ?thesis using False by simp
qed


text \<open>Means and deviations of samples without imaginary part.\<close>

lemma elem_tabulate2: "i < Nx \<Longrightarrow> j < Ny \<Longrightarrow> elem (tabulate2 Nx Ny f) (i, j) = f (i, j)"
  by (simp add: elem_def tabulate2_def)

lemma set_positions: "set (positions Nx Ny) = {(i, j). i < Nx \<and> j < Ny}"
  by (auto simp: positions_def)

lemma concat_tabulate2: "concat (tabulate2 Nx Ny f) = map f (positions Nx Ny)"
  by (simp add: tabulate2_def positions_def map_concat comp_def)

lemma tabulate2_cong:
  assumes "\<And>i j. i < Nx \<Longrightarrow> j < Ny \<Longrightarrow> f (i, j) = g (i, j)"
  shows "tabulate2 Nx Ny f = tabulate2 Nx Ny g"
  unfolding tabulate2_def using assms by simp

lemma concat_filter: "concat (map (\<lambda>p. if P p then [v p] else []) ps) = map v (filter P ps)"
  by (induction ps) simp_all

lemma Re_sum_list: "Re (sum_list zs) = sum_list (map Re zs)"
  by (induction zs) simp_all

lemma Im_sum_list: "Im (sum_list zs) = sum_list (map Im zs)"
  by (induction zs) simp_all

lemma Im_mean_c:
  assumes "\<And>z. z \<in> set zs \<Longrightarrow> Im z = 0"
  shows "Im (mean_c zs) = 0"
proof -
  have "sum_list (map Im zs) = 0" using assms by (induction zs) simp_all
  then show ?thesis by (simp add: mean_c_def Im_divide_of_nat Im_sum_list)
qed

lemma Re_mean_c: "Re (mean_c zs) = sum_list (map Re zs) / real (length zs)"
  by (simp add: mean_c_def Re_divide_of_nat Re_sum_list)

lemma sum_centred:
  fixes xs :: "real list"
  assumes "xs \<noteq> []"
  shows "sum_list (map (\<lambda>x. x - sum_list xs / real (length xs)) xs) = 0"
  using assms by (simp add: sum_list_subtractf sum_list_triv)

lemma mean_c_centred:
  assumes "zs \<noteq> []"
  shows "mean_c (map (\<lambda>z. z - mean_c zs) zs) = 0"
proof -
  have "sum_list (map (\<lambda>z. z - mean_c zs) zs) = sum_list zs - of_nat (length zs) * mean_c zs"
    by (simp add: sum_list_subtractf sum_list_triv)
  also have "\<dots> = 0" using assms by (simp add: mean_c_def)
  finally show ?thesis by (simp add: mean_c_def)
qed

lemma std_centred:
  assumes "zs \<noteq> []" and im: "\<And>z. z \<in> set zs \<Longrightarrow> Im z = 0"
  shows "std (map (\<lambda>z. z - mean_c zs) zs)
           = sqrt (sum_list (map (\<lambda>z. (Re z - Re (mean_c zs))\<^sup>2) zs) / real (length zs))"
proof -
  have m0: "Im (mean_c zs) = 0" using im by (rule Im_mean_c)
  have "(cmod (z - mean_c zs))\<^sup>2 = (Re z - Re (mean_c zs))\<^sup>2" if "z \<in> set zs" for z
    using im [OF that] m0 by (simp add: cmod_power2)
  then have e: "map (\<lambda>z. (cmod (z - mean_c zs))\<^sup>2) zs = map (\<lambda>z. (Re z - Re (mean_c zs))\<^sup>2) zs"
    by (intro map_cong refl) simp
  have "std (map (\<lambda>z. z - mean_c zs) zs)
          = sqrt (sum_list (map (\<lambda>z. (cmod (z - mean_c zs))\<^sup>2) zs) / real (length zs))"
    unfolding std_def mean_c_centred [OF assms(1)] by (simp add: comp_def)
  then show ?thesis unfolding e .
qed

lemma normalized_samples:
  assumes ne: "zs \<noteq> []" and im: "\<And>z. z \<in> set zs \<Longrightarrow> Im z = 0"
    and s: "std (map (\<lambda>z. z - mean_c zs) zs) \<noteq> 0" and r: "0 < r"
  defines "c \<equiv> r / std (map (\<lambda>z. z - mean_c zs) zs)"
  defines "out \<equiv> map (\<lambda>z. (z - mean_c zs) * complex_of_real c) zs"
  shows "sum_list (map Re out) / real (length out) = 0"
    and "sqrt (sum_list (map (\<lambda>z. (Re z)\<^sup>2) out) / real (length out)) = r"
proof -
  let ?mu = "Re (mean_c zs)"
  let ?s = "std (map (\<lambda>z. z - mean_c zs) zs)"
  have sv: "?s = sqrt (sum_list (map (\<lambda>z. (Re z - ?mu)\<^sup>2) zs) / real (length zs))"
    using ne im by (rule std_centred)
  have s0: "0 \<le> ?s" unfolding sv by (intro real_sqrt_ge_zero divide_nonneg_nonneg sum_list_nonneg) auto
  with s have spos: "0 < ?s" by simp
  have cpos: "0 < c" unfolding c_def using r spos by simp
  have re: "map Re out = map (\<lambda>x. (x - ?mu) * c) (map Re zs)"
    by (simp add: out_def comp_def)
  have "sum_list (map (\<lambda>x. x - ?mu) (map Re zs)) = 0"
    unfolding Re_mean_c using ne sum_centred [of "map Re zs"] by simp
  then have "sum_list (map Re out) = 0"
    unfolding re by (simp add: comp_def sum_list_mult_const)
  then show "sum_list (map Re out) / real (length out) = 0" by simp
  have "sum_list (map (\<lambda>z. (Re z)\<^sup>2) out) = sum_list (map (\<lambda>z. (Re z - ?mu)\<^sup>2 * c\<^sup>2) zs)"
    by (simp add: out_def comp_def power_mult_distrib)
  also have "\<dots> = sum_list (map (\<lambda>z. (Re z - ?mu)\<^sup>2) zs) * c\<^sup>2"
    by (simp add: sum_list_mult_const)
  finally have "sum_list (map (\<lambda>z. (Re z)\<^sup>2) out) / real (length out)
                  = (sum_list (map (\<lambda>z. (Re z - ?mu)\<^sup>2) zs) / real (length zs)) * c\<^sup>2"
    by (simp add: out_def)
  then have "sqrt (sum_list (map (\<lambda>z. (Re z)\<^sup>2) out) / real (length out))
               = sqrt (sum_list (map (\<lambda>z. (Re z - ?mu)\<^sup>2) zs) / real (length zs)) * sqrt (c\<^sup>2)"
    by (simp only: real_sqrt_mult)
  then have "sqrt (sum_list (map (\<lambda>z. (Re z)\<^sup>2) out) / real (length out)) = ?s * \<bar>c\<bar>"
    by (simp only: sv real_sqrt_abs)
  also have "\<dots> = r" using cpos spos r by (simp add: c_def)
  finally show "sqrt (sum_list (map (\<lambda>z. (Re z)\<^sup>2) out) / real (length out)) = r" .
qed


text \<open>The unnormalised map has no imaginary part: the cropped transform is real and the
  fitted surface of a real map is real.\<close>

lemma shape_tabulate2_square: "shape (tabulate2 n n f) = (n, n)"
proof (cases "n = 0")
  case True
  then show ?thesis by (simp add: shape_def tabulate2_def)
next
  case False
  then show ?thesis by (simp add: shape_tabulate2)
qed

lemma map2_same: "map2 h (map f xs) (map g xs) = map (\<lambda>x. h (f x) (g x)) xs"
  by (induction xs) simp_all

lemma residual_tabulate2:
  "residual (tabulate2 Nx Ny f) (tabulate2 Nx Ny g) = tabulate2 Nx Ny (\<lambda>p. f p - g p)"
  by (simp add: residual_def tabulate2_def map2_same)

lemma map_tabulate2: "map (map h) (tabulate2 Nx Ny f) = tabulate2 Nx Ny (\<lambda>p. h (f p))"
  by (simp add: tabulate2_def comp_def)

lemma piston_real:
  assumes "\<And>p. Im (f p) = 0"
  shows "Im (piston (tabulate2 n n f) (aperture (tabulate2 n n f))) = 0"
proof -
  let ?w = "tabulate2 n n f"
  have "Im z = 0" if "z \<in> set (map (elem ?w) (aperture ?w))" for z
  proof -
    from that obtain p where p: "p \<in> set (aperture ?w)" and z: "z = elem ?w p" by auto
    from p have "p \<in> set (positions n n)"
      by (simp add: aperture_def shape_tabulate2_square)
    then obtain i j where "p = (i, j)" "i < n" "j < n" by (auto simp: set_positions)
    then show ?thesis using assms by (simp add: z elem_tabulate2)
  qed
  then have "Im (mean_c (map (elem ?w) (aperture ?w))) = 0" by (rule Im_mean_c)
  then show ?thesis by (simp add: piston_def mean_c_def)
qed

lemma wfe_unnormalized_real:
  assumes "wfe_unnormalized I wa psd rand k = Some w"
  shows "\<exists>f. w = tabulate2 (length psd - 1) (length psd - 1) f \<and> (\<forall>p. Im (f p) = 0)"
proof -
  let ?n = "length psd - 1"
  obtain h where h: "wfe1 I psd rand = tabulate2 ?n ?n h"
    using wfe1_shape by blast
  let ?f = "\<lambda>p. complex_of_real (h p)"
  have w0: "map (map complex_of_real) (wfe1 I psd rand) = tabulate2 ?n ?n ?f"
    by (simp add: h map_tabulate2)
  show ?thesis
  proof (cases k)
    case True
    with assms have "w = tabulate2 ?n ?n ?f" by (simp add: wfe_unnormalized_def w0)
    then show ?thesis by (intro exI [of _ ?f]) simp
  next
    case False
    with assms obtain sw where sw: "fit_spherical_wave (tabulate2 ?n ?n ?f) wa = Some sw"
      and w: "w = residual (tabulate2 ?n ?n ?f) sw"
      by (auto simp: wfe_unnormalized_def w0 Let_def split: option.splits)
    let ?P = "piston (tabulate2 ?n ?n ?f) (aperture (tabulate2 ?n ?n ?f))"
    have "sw = tabulate2 ?n ?n (\<lambda>p. ?P)"
      using fit_is_piston [OF sw] by (simp add: shape_tabulate2_square)
    then have "w = tabulate2 ?n ?n (\<lambda>p. ?f p - ?P)"
      by (simp add: w residual_tabulate2)
    moreover have "Im ?P = 0" by (rule piston_real) simp
    ultimately show ?thesis by (intro exI [of _ "\<lambda>p. ?f p - ?P"]) simp
  qed
qed

lemma psd2wfe_aperture_filter:
  "psd2wfe_aperture N c ov
     = filter (\<lambda>p. c \<longrightarrow> radius N p < ov * (1 / 2) * real N) (positions (N - 1) (N - 1))"
  by (simp add: psd2wfe_aperture_def)

lemma aperture_samples_normalize:
  assumes ap: "ap = filter P (positions n n)"
    and w: "w = tabulate2 n n f" and im: "\<And>p. Im (f p) = 0"
    and sc: "scale_factor (map (\<lambda>z. z - mean_c (map (elem w) ap)) (map (elem w) ap)) rms pv = Fin c"
  shows "aperture_samples (normalize_wfe (Some w) n ap rms pv)
           = map (\<lambda>z. (z - mean_c (map (elem w) ap)) * complex_of_real c) (map (elem w) ap)"
proof -
  let ?m = "mean_c (map (elem w) ap)"
  let ?v = "\<lambda>p. (elem w p - ?m) * complex_of_real c"
  have inpos: "elem w p = f p" if "p \<in> set (positions n n)" for p
    using that by (auto simp: set_positions w elem_tabulate2)
  have m0: "Im ?m = 0"
  proof (rule Im_mean_c)
    fix z assume "z \<in> set (map (elem w) ap)"
    then obtain p where "p \<in> set ap" "z = elem w p" by auto
    then show "Im z = 0" using inpos [of p] im by (simp add: ap)
  qed
  have each: "(case (if p \<in> set ap
                 then (case Some w of None \<Rightarrow> None
                       | Some wfe \<Rightarrow>
                           (let zs = map (elem wfe) ap; m = mean_c zs
                            in case scale_factor (map (\<lambda>z. z - m) zs) rms pv of
                                 NonFin \<Rightarrow> None
                               | Fin c \<Rightarrow> Some ((elem wfe p - m) * complex_of_real c)))
                 else Some (Complex 0 1000000000)) of
              None \<Rightarrow> [] | Some z \<Rightarrow> if Im z < 1 then [z] else [])
            = (if P p then [?v p] else [])" if p: "p \<in> set (positions n n)" for p
  proof (cases "P p")
    case True
    then have pa: "p \<in> set ap" using p by (simp add: ap)
    have v0: "Im (?v p) = 0" using inpos [OF p] im m0 by simp
    have "(if Im (?v p) < 1 then [?v p] else []) = (if P p then [?v p] else [])"
      unfolding v0 using True by simp
    then show ?thesis
      unfolding if_P [OF pa] option.case Let_def sc npfloat.case .
  next
    case False
    then have "p \<notin> set ap" by (simp add: ap)
    then show ?thesis using False by simp
  qed
  have "aperture_samples (normalize_wfe (Some w) n ap rms pv)
          = concat (map (\<lambda>p. if P p then [?v p] else []) (positions n n))"
    unfolding aperture_samples_def normalize_wfe_def concat_tabulate2 map_map comp_def
    by (rule arg_cong [where f = concat], rule map_cong [OF refl], rule each)
  also have "\<dots> = map ?v (filter P (positions n n))" by (rule concat_filter)
  finally show ?thesis by (simp add: ap comp_def)
qed


text \<open>With a non-zero \<^verbatim>\<open>rms\<close> the branch of \<^verbatim>\<open>pv\<close> is not taken.\<close>

lemma scale_factor_rms: "rms \<noteq> 0 \<Longrightarrow> scale_factor zs rms pv = np_divide rms (std zs)"
  by (simp add: scale_factor_def)

lemma normalize_wfe_rms_first:
  assumes "rms \<noteq> 0"
  shows "normalize_wfe w n ap rms pv = normalize_wfe w n ap rms pv'"
proof -
  have e: "scale_factor zs rms pv = scale_factor zs rms pv'" for zs
    using assms by (simp add: scale_factor_def)
  show ?thesis unfolding normalize_wfe_def e ..
qed

text \<open>
  The normalisation of the repaired routine. Let the target \<open>r\<close> be positive, the unnormalised map be finite
  (\<open>Some w\<close>), and its samples \<open>zs\<close> in the aperture be at least one and not all equal
  (their standard deviation is not 0). Then the samples of the returned map that lie in
  the aperture have real parts of mean 0 and root mean square \<open>r\<close>, and the returned map
  does not depend on \<^verbatim>\<open>pv\<close>: the RMS target is the one that is honoured.
\<close>

lemma psd2wfe_repaired_normalized:
  assumes r: "0 < r"
    and u: "wfe_unnormalized I wa psd (fst (np_random_rand g (2 * length psd) (2 * length psd))) k
              = Some w"
    and zs: "zs = map (elem w) (psd2wfe_aperture (length psd) c ov)"
    and ne: "zs \<noteq> []"
    and sd: "std (map (\<lambda>z. z - mean_c zs) zs) \<noteq> 0"
  shows "normalized_to r (fst (psd2wfe_repaired I wa g psd r pv c ov k)) \<and>
         fst (psd2wfe_repaired I wa g psd r pv c ov k) = fst (psd2wfe_repaired I wa g psd r pv' c ov k)"
proof
  let ?n = "length psd - 1"
  let ?ap = "psd2wfe_aperture (length psd) c ov"
  let ?s = "std (map (\<lambda>z. z - mean_c zs) zs)"
  let ?out = "map (\<lambda>z. (z - mean_c zs) * complex_of_real (r / ?s)) zs"
  obtain f where w: "w = tabulate2 ?n ?n f" and im: "\<And>p. Im (f p) = 0"
    using wfe_unnormalized_real [OF u] by blast
  have sc: "scale_factor (map (\<lambda>z. z - mean_c (map (elem w) ?ap)) (map (elem w) ?ap)) r pv
              = Fin (r / ?s)"
    using r sd by (simp add: scale_factor_rms np_divide_def zs)
  have samples: "aperture_samples (normalize_wfe (Some w) ?n ?ap r pv) = ?out"
    unfolding zs
    by (rule aperture_samples_normalize [OF psd2wfe_aperture_filter w im sc [unfolded zs]])
  have imz: "Im z = 0" if "z \<in> set zs" for z
  proof -
    from that obtain p where p: "p \<in> set ?ap" and z: "z = elem w p" by (auto simp: zs)
    from p have "p \<in> set (positions ?n ?n)" by (simp add: psd2wfe_aperture_filter)
    then obtain i j where "p = (i, j)" "i < ?n" "j < ?n" by (auto simp: set_positions)
    then show ?thesis using im by (simp add: z w elem_tabulate2)
  qed
  have "sum_list (map Re ?out) / real (length ?out) = 0"
    and "sqrt (sum_list (map (\<lambda>z. (Re z)\<^sup>2) ?out) / real (length ?out)) = r"
    using normalized_samples [OF ne imz sd r] by simp_all
  moreover have "?out \<noteq> []" using ne by simp
  ultimately have "normalized_to r (normalize_wfe (Some w) ?n ?ap r pv)"
    unfolding normalized_to_def Let_def samples by simp
  then show "normalized_to r (fst (psd2wfe_repaired I wa g psd r pv c ov k))"
    unfolding psd2wfe_repaired_fst u .
  show "fst (psd2wfe_repaired I wa g psd r pv c ov k) = fst (psd2wfe_repaired I wa g psd r pv' c ov k)"
    unfolding psd2wfe_repaired_fst using r by (intro normalize_wfe_rms_first) simp
qed


text \<open>A concrete run: a three-element spectrum, unit power in every bin, and all the
  phases equal. The transform of the constant array is a single spike at the origin.\<close>

lemma fft2_const:
  assumes "0 < M"
  shows "fft2 (tabulate2 M M (\<lambda>p. c))
           = tabulate2 M M (\<lambda>p. if p = (0, 0) then c * of_nat M * of_nat M else 0)"
proof -
  have entry: "sum_list (map (\<lambda>(x, y). elem (tabulate2 M M (\<lambda>p. c)) (x, y) * twiddle M u x * twiddle M v y)
                   (positions M M))
                 = (if (u, v) = (0, 0) then c * of_nat M * of_nat M else 0)"
    if "u < M" "v < M" for u v
  proof -
    have "sum_list (map (\<lambda>(x, y). elem (tabulate2 M M (\<lambda>p. c)) (x, y) * twiddle M u x * twiddle M v y)
                   (positions M M))
            = (\<Sum>x<M. \<Sum>y<M. elem (tabulate2 M M (\<lambda>p. c)) (x, y) * twiddle M u x * twiddle M v y)"
      by (simp add: sum_list_positions)
    also have "\<dots> = (\<Sum>x<M. \<Sum>y<M. c * twiddle M u x * twiddle M v y)"
      by (intro sum.cong refl) (simp add: elem_tabulate2)
    also have "\<dots> = c * ((\<Sum>x<M. twiddle M u x) * (\<Sum>y<M. twiddle M v y))"
    proof -
      have "c * ((\<Sum>x<M. twiddle M u x) * (\<Sum>y<M. twiddle M v y))
              = c * (\<Sum>x<M. \<Sum>y<M. twiddle M u x * twiddle M v y)"
        by (simp only: sum_product)
      also have "\<dots> = (\<Sum>x<M. \<Sum>y<M. c * twiddle M u x * twiddle M v y)"
        by (simp only: sum_distrib_left mult.assoc)
      finally show ?thesis by simp
    qed
    also have "\<dots> = (if (u, v) = (0, 0) then c * of_nat M * of_nat M else 0)"
      using that by (simp add: twiddle_sum)
    finally show ?thesis .
  qed
  show ?thesis
    unfolding fft2_def Let_def shape_tabulate2 [OF assms] fst_conv snd_conv
    by (rule tabulate2_cong) (simp add: entry)
qed

definition unit_interpolate :: "real list \<Rightarrow> pos \<Rightarrow> real" where
  "unit_interpolate psd p = 1"

definition phase_factor :: "real \<Rightarrow> complex" where
  "phase_factor t = exp (csqrt \<i> * complex_of_real (2 * pi * t))"

lemma wfe1_spike:
  assumes l: "length psd = 3" and t: "\<And>i j. i < 6 \<Longrightarrow> j < 6 \<Longrightarrow> rand (i, j) = t"
  shows "wfe1 unit_interpolate psd rand = [[36 * Re (phase_factor t), 0], [0, 0]]"
proof -
  have n: "2 * length psd = 6" "int (length psd) - 1 = 2" using l by simp_all
  have "tabulate2 6 6 (ft_complex unit_interpolate psd rand) = tabulate2 6 6 (\<lambda>p. phase_factor t)"
    by (rule tabulate2_cong) (simp add: ft_complex_def ft_amplitudes_def unit_interpolate_def t phase_factor_def)
  then have "fft2 (tabulate2 6 6 (ft_complex unit_interpolate psd rand))
          = tabulate2 6 6 (\<lambda>p. if p = (0, 0) then phase_factor t * of_nat 6 * of_nat 6 else 0)"
    by (simp add: fft2_const)
  then have big: "map (map Re) (fft2 (tabulate2 6 6 (ft_complex unit_interpolate psd rand)))
          = tabulate2 6 6 (\<lambda>p. if p = (0, 0) then 36 * Re (phase_factor t) else 0)"
    by (simp add: map_tabulate2 if_distrib [of Re] cong: if_cong)
  have two: "(0::int) \<le> 2" by simp
  have "wfe1 unit_interpolate psd rand
          = tabulate2 2 2 (\<lambda>p. if p = (0, 0) then 36 * Re (phase_factor t) else 0)"
    unfolding wfe1_def Let_def n big py_slice2_def py_slice_0 [OF two] take_tabulate2
    by simp
  also have "\<dots> = [[36 * Re (phase_factor t), 0], [0, 0]]"
    by (simp add: tabulate2_def upt_rec)
  finally show ?thesis .
qed


lemma positions_2: "positions 2 2 = [(0, 0), (0, 1), (1, 0), (1, 1)]"
  by (simp add: positions_def upt_rec)

definition spike :: "real \<Rightarrow> complex list list" where
  "spike a = [[complex_of_real (36 * a), 0], [0, 0]]"

lemma spike_samples: "map (elem (spike a)) (positions 2 2) = [complex_of_real (36 * a), 0, 0, 0]"
  by (simp add: positions_2 spike_def elem_def)

lemma spike_mean: "mean_c [complex_of_real (36 * a), 0, 0, 0] = complex_of_real (9 * a)"
  by (simp add: mean_c_def)

lemma spike_centred:
  "map (\<lambda>z. z - complex_of_real (9 * a)) [complex_of_real (36 * a), 0, 0, 0]
     = [complex_of_real (27 * a), complex_of_real (- 9 * a), complex_of_real (- 9 * a),
        complex_of_real (- 9 * a)]"
  by simp

lemma spike_std:
  "std [complex_of_real (27 * a), complex_of_real (- 9 * a), complex_of_real (- 9 * a),
        complex_of_real (- 9 * a)] = sqrt 243 * \<bar>a\<bar>"
proof -
  have m: "mean_c [complex_of_real (27 * a), complex_of_real (- 9 * a), complex_of_real (- 9 * a),
        complex_of_real (- 9 * a)] = 0"
    by (simp add: mean_c_def)
  have c: "(cmod (complex_of_real x))\<^sup>2 = x\<^sup>2" for x by simp
  have "std [complex_of_real (27 * a), complex_of_real (- 9 * a), complex_of_real (- 9 * a),
        complex_of_real (- 9 * a)] = sqrt (243 * a\<^sup>2)"
    unfolding std_def m by (simp add: c power_mult_distrib del: norm_of_real of_real_mult)
  also have "\<dots> = sqrt 243 * \<bar>a\<bar>" by (simp add: real_sqrt_mult)
  finally show ?thesis .
qed


lemma tabulate2_2: "tabulate2 2 2 f = [[f (0, 0), f (0, 1)], [f (1, 0), f (1, 1)]]"
  by (simp add: tabulate2_def upt_rec)

lemma normalize_spike:
  assumes "a \<noteq> 0" and "r \<noteq> 0"
  shows "normalize_wfe (Some (spike a)) 2 (positions 2 2) r pv
           = [[Some (complex_of_real (27 * a) * complex_of_real (r / (sqrt 243 * \<bar>a\<bar>))),
               Some (complex_of_real (- 9 * a) * complex_of_real (r / (sqrt 243 * \<bar>a\<bar>)))],
              [Some (complex_of_real (- 9 * a) * complex_of_real (r / (sqrt 243 * \<bar>a\<bar>))),
               Some (complex_of_real (- 9 * a) * complex_of_real (r / (sqrt 243 * \<bar>a\<bar>)))]]"
proof -
  have sc: "scale_factor [complex_of_real (27 * a), complex_of_real (- 9 * a),
                          complex_of_real (- 9 * a), complex_of_real (- 9 * a)] r pv
              = Fin (r / (sqrt 243 * \<bar>a\<bar>))"
    unfolding scale_factor_rms [OF assms(2)] spike_std
    using assms(1) by (simp add: np_divide_def)
  have inpos: "p \<in> set (positions 2 2)" if "p \<in> {(0, 0), (0, 1), (1, 0), (1, 1)}" for p :: pos
    using that by (auto simp: positions_2)
  have e: "elem (spike a) (0, 0) = complex_of_real (36 * a)" "elem (spike a) (0, 1) = 0"
    "elem (spike a) (1, 0) = 0" "elem (spike a) (1, 1) = 0"
    by (simp_all add: spike_def elem_def)
  show ?thesis
    unfolding normalize_wfe_def tabulate2_2 option.case Let_def
      spike_samples spike_mean spike_centred sc npfloat.case e
    by (simp add: positions_2)
qed

lemma wfe_unnormalized_spike:
  assumes l: "length psd = 3" and g: "\<And>i. i < 36 \<Longrightarrow> g i = t"
  shows "wfe_unnormalized unit_interpolate wa psd
           (fst (np_random_rand g (2 * length psd) (2 * length psd))) True
           = Some (spike (Re (phase_factor t)))"
proof -
  let ?rand = "fst (np_random_rand g (2 * length psd) (2 * length psd))"
  have "?rand (i, j) = t" if "i < 6" "j < 6" for i j
  proof -
    have "i * 6 + j < 36" using that by simp
    then show ?thesis by (simp add: np_random_rand_def l g)
  qed
  then have "wfe1 unit_interpolate psd ?rand = [[36 * Re (phase_factor t), 0], [0, 0]]"
    by (rule wfe1_spike [OF l])
  then show ?thesis
    by (simp add: wfe_unnormalized_def spike_def)
qed

lemma aperture_3: "length psd = 3 \<Longrightarrow> psd2wfe_aperture (length psd) False ov = positions 2 2"
  by (simp add: psd2wfe_aperture_def)

lemma psd2wfe_repaired_spike:
  assumes l: "length psd = 3" and g: "\<And>i. i < 36 \<Longrightarrow> g i = t"
  shows "fst (psd2wfe_repaired unit_interpolate wa g psd r pv False ov True)
           = normalize_wfe (Some (spike (Re (phase_factor t)))) 2 (positions 2 2) r pv"
proof -
  have n: "length psd - 1 = 2" using l by simp
  have u: "wfe_unnormalized unit_interpolate wa psd
             (fst (np_random_rand g (2 * length psd) (2 * length psd))) True
             = Some (spike (Re (phase_factor t)))"
    using l g by (rule wfe_unnormalized_spike)
  have a: "psd2wfe_aperture (length psd) False ov = positions 2 2"
    using l by (rule aperture_3)
  show ?thesis
    unfolding psd2wfe_repaired_fst u a n ..
qed

lemma psd2wfe_repaired_snd:
  "snd (psd2wfe_repaired I wa g psd rms pv c ov k) = (\<lambda>i. g (i + 2 * length psd * (2 * length psd)))"
  by (simp add: psd2wfe_repaired_def Let_def split_beta np_random_rand_def)

lemma csqrt_i: "csqrt \<i> = (1 + \<i>) / complex_of_real (sqrt 2)"
proof (rule csqrt_unique)
  have "((1 + \<i>) / complex_of_real (sqrt 2))\<^sup>2 = (1 + \<i>)\<^sup>2 / (complex_of_real (sqrt 2))\<^sup>2"
    by (simp add: power_divide)
  also have "(1 + \<i>)\<^sup>2 = 2 * \<i>" by (simp add: power2_eq_square algebra_simps)
  also have "(complex_of_real (sqrt 2))\<^sup>2 = 2"
    by (simp add: power2_eq_square flip: of_real_mult)
  finally show "((1 + \<i>) / complex_of_real (sqrt 2))\<^sup>2 = \<i>" by simp
  show "0 < Re ((1 + \<i>) / complex_of_real (sqrt 2)) \<or>
        Re ((1 + \<i>) / complex_of_real (sqrt 2)) = 0 \<and> 0 \<le> Im ((1 + \<i>) / complex_of_real (sqrt 2))"
    by (simp add: Re_divide_of_real)
qed

lemma phase_factor_0: "phase_factor 0 = 1"
  by (simp add: phase_factor_def)

lemma phase_factor_half: "phase_factor (sqrt 2 / 2) = - complex_of_real (exp pi)"
proof -
  have "csqrt \<i> * complex_of_real (2 * pi * (sqrt 2 / 2))
          = (1 + \<i>) * (complex_of_real (sqrt 2) / complex_of_real (sqrt 2)) * complex_of_real pi"
    by (simp add: csqrt_i)
  also have "\<dots> = complex_of_real pi + \<i> * complex_of_real pi"
    by (simp add: algebra_simps)
  finally have "phase_factor (sqrt 2 / 2) = exp (complex_of_real pi + \<i> * complex_of_real pi)"
    by (simp only: phase_factor_def)
  also have "\<dots> = exp (complex_of_real pi) * cis pi"
    by (simp only: exp_add cis_conv_exp)
  also have "\<dots> = - complex_of_real (exp pi)"
    by (simp add: exp_of_real)
  finally show ?thesis .
qed


definition no_wfe_aperture :: "pos \<Rightarrow> complex" where
  "no_wfe_aperture p = 0"

definition stream0 :: rng where
  "stream0 i = (if i < 36 then 0 else sqrt 2 / 2)"

definition zero_stream :: rng where
  "zero_stream i = 0"

definition flat3 :: "real list" where
  "flat3 = [1, 1, 1]"

text \<open>Two calls in a row with the same arguments. The generator first returns 36 zeros
  and then \<open>sqrt 2 / 2\<close>: the phases of the first call are 0, those of the second are
  \<open>sqrt 2 * pi\<close>, where \<open>exp (sqrt i * phase) = - exp pi\<close>.\<close>

lemma first_call:
  "fst (psd2wfe_repaired unit_interpolate no_wfe_aperture stream0 flat3 (1 / 10) (1 / 4) False 1 True)
     = normalize_wfe (Some (spike 1)) 2 (positions 2 2) (1 / 10) (1 / 4)"
proof -
  have l: "length flat3 = 3" by (simp add: flat3_def)
  have g: "stream0 i = 0" if "i < 36" for i using that by (simp add: stream0_def)
  have "fst (psd2wfe_repaired unit_interpolate no_wfe_aperture stream0 flat3 (1 / 10) (1 / 4) False 1 True)
     = normalize_wfe (Some (spike (Re (phase_factor 0)))) 2 (positions 2 2) (1 / 10) (1 / 4)"
    using l g by (rule psd2wfe_repaired_spike)
  then show ?thesis by (simp add: phase_factor_0)
qed

lemma second_call:
  "fst (psd2wfe_repaired unit_interpolate no_wfe_aperture
          (snd (psd2wfe_repaired unit_interpolate no_wfe_aperture stream0 flat3 (1 / 10) (1 / 4) False 1 True))
          flat3 (1 / 10) (1 / 4) False 1 True)
     = normalize_wfe (Some (spike (- exp pi))) 2 (positions 2 2) (1 / 10) (1 / 4)"
proof -
  let ?g = "snd (psd2wfe_repaired unit_interpolate no_wfe_aperture stream0 flat3 (1 / 10) (1 / 4) False 1 True)"
  have l: "length flat3 = 3" by (simp add: flat3_def)
  have g: "?g i = sqrt 2 / 2" if "i < 36" for i
    by (simp add: psd2wfe_repaired_snd l stream0_def)
  have "fst (psd2wfe_repaired unit_interpolate no_wfe_aperture ?g flat3 (1 / 10) (1 / 4) False 1 True)
     = normalize_wfe (Some (spike (Re (phase_factor (sqrt 2 / 2))))) 2 (positions 2 2) (1 / 10) (1 / 4)"
    using l g by (rule psd2wfe_repaired_spike)
  then show ?thesis by (simp add: phase_factor_half)
qed

lemma spike_corner:
  assumes "a \<noteq> 0" and "r \<noteq> 0"
  shows "hd (hd (normalize_wfe (Some (spike a)) 2 (positions 2 2) r pv))
           = Some (complex_of_real (27 * a * (r / (sqrt 243 * \<bar>a\<bar>))))"
  unfolding normalize_spike [OF assms] by simp

text \<open>
  The repaired routine is called twice with identical
  arguments, the second call starting from the generator state that the first one left.
  The two maps differ (the first sample is \<open>27 / (10 sqrt 243)\<close> in one and its negative
  in the other).
\<close>

lemma psd2wfe_repaired_second_call_differs:
  "fst (psd2wfe_repaired unit_interpolate no_wfe_aperture
          (snd (psd2wfe_repaired unit_interpolate no_wfe_aperture stream0 flat3 (1 / 10) (1 / 4) False 1 True))
          flat3 (1 / 10) (1 / 4) False 1 True)
     \<noteq> fst (psd2wfe_repaired unit_interpolate no_wfe_aperture stream0 flat3 (1 / 10) (1 / 4) False 1 True)"
proof
  assume "fst (psd2wfe_repaired unit_interpolate no_wfe_aperture
          (snd (psd2wfe_repaired unit_interpolate no_wfe_aperture stream0 flat3 (1 / 10) (1 / 4) False 1 True))
          flat3 (1 / 10) (1 / 4) False 1 True)
     = fst (psd2wfe_repaired unit_interpolate no_wfe_aperture stream0 flat3 (1 / 10) (1 / 4) False 1 True)"
  then have "hd (hd (normalize_wfe (Some (spike (- exp pi))) 2 (positions 2 2) (1 / 10) (1 / 4)))
           = hd (hd (normalize_wfe (Some (spike 1)) 2 (positions 2 2) (1 / 10) (1 / 4)))"
    unfolding first_call second_call by simp
  moreover have "hd (hd (normalize_wfe (Some (spike (- exp pi))) 2 (positions 2 2) (1 / 10) (1 / 4)))
           = Some (complex_of_real (27 * (- exp pi) * (1 / 10 / (sqrt 243 * \<bar>- exp pi\<bar>))))"
    by (rule spike_corner) simp_all
  moreover have "hd (hd (normalize_wfe (Some (spike 1)) 2 (positions 2 2) (1 / 10) (1 / 4)))
           = Some (complex_of_real (27 * 1 * (1 / 10 / (sqrt 243 * \<bar>1\<bar>))))"
    by (rule spike_corner) simp_all
  ultimately have "complex_of_real (27 * (- exp pi) * (1 / 10 / (sqrt 243 * \<bar>- exp pi\<bar>)))
               = complex_of_real (27 * 1 * (1 / 10 / (sqrt 243 * \<bar>1\<bar>)))"
    by (simp only: option.inject)
  then have e: "27 * (- exp pi) * (1 / 10 / (sqrt 243 * \<bar>- exp pi\<bar>))
               = 27 * 1 * (1 / 10 / (sqrt 243 * \<bar>1 :: real\<bar>))"
    by (simp only: of_real_eq_iff)
  have "27 * (- exp pi) * (1 / 10 / (sqrt 243 * \<bar>- exp pi\<bar>)) = - (27 / 10 / sqrt 243)"
    by simp
  moreover have "27 * 1 * (1 / 10 / (sqrt 243 * \<bar>1 :: real\<bar>)) = 27 / 10 / sqrt 243"
    by simp
  moreover have "(0::real) < 27 / 10 / sqrt 243" by simp
  ultimately show False using e by simp
qed


text \<open>The normalisation at the spike map \<open>[[36, 0], [0, 0]]\<close>, target
  0.1.\<close>

lemma psd2wfe_repaired_normalized_witness:
  "0 < (1 / 10 :: real) \<and>
   normalized_to (1 / 10)
     (fst (psd2wfe_repaired unit_interpolate no_wfe_aperture stream0 flat3 (1 / 10) (1 / 4) False 1 True))"
proof -
  have l: "length flat3 = 3" by (simp add: flat3_def)
  have g: "stream0 i = 0" if "i < 36" for i using that by (simp add: stream0_def)
  have u: "wfe_unnormalized unit_interpolate no_wfe_aperture flat3
             (fst (np_random_rand stream0 (2 * length flat3) (2 * length flat3))) True
             = Some (spike 1)"
    using wfe_unnormalized_spike [OF l g, where wa = no_wfe_aperture] by (simp add: phase_factor_0)
  have zs: "[complex_of_real (36 * 1), 0, 0, 0]
              = map (elem (spike 1)) (psd2wfe_aperture (length flat3) False 1)"
    unfolding aperture_3 [OF l] spike_samples ..
  have sd: "std (map (\<lambda>z. z - mean_c [complex_of_real (36 * 1), 0, 0, 0])
                   [complex_of_real (36 * 1), 0, 0, 0]) \<noteq> 0"
    unfolding spike_mean spike_centred spike_std by simp
  have r: "0 < (1 / 10 :: real)" by simp
  show ?thesis
    using psd2wfe_repaired_normalized [OF r u zs _ sd, of "1 / 4" "1 / 4"] by simp
qed

text \<open>
  The repaired routine at the spectrum \<open>[1, 1]\<close>, target RMS 0.1. The only
  sample of the returned map is not finite, so the map has no sample with mean 0 and
  root mean square 0.1.
\<close>

definition flat2 :: "real list" where
  "flat2 = [1, 1]"

lemma psd2wfe_repaired_single_sample:
  "\<not> normalized_to (1 / 10)
       (fst (psd2wfe_repaired unit_interpolate no_wfe_aperture zero_stream flat2 (1 / 10) (1 / 4) False 1 True))"
proof -
  have "fst (psd2wfe_repaired unit_interpolate no_wfe_aperture zero_stream flat2 (1 / 10) (1 / 4) False 1 True)
          = [[None]]"
    by (rule single_sample_not_finite) (simp_all add: flat2_def)
  then show ?thesis
    by (simp add: normalized_to_def aperture_samples_def)
qed

text \<open>The map depends on the generator through its next \<open>(2N)\<^sup>2\<close> numbers only.\<close>

lemma wfe1_cong:
  assumes "\<And>i j. i < 2 * length psd \<Longrightarrow> j < 2 * length psd \<Longrightarrow> rand (i, j) = rand' (i, j)"
  shows "wfe1 I psd rand = wfe1 I psd rand'"
proof -
  have "tabulate2 (2 * length psd) (2 * length psd) (ft_complex I psd rand)
          = tabulate2 (2 * length psd) (2 * length psd) (ft_complex I psd rand')"
    by (rule tabulate2_cong) (simp add: ft_complex_def assms)
  then show ?thesis by (simp add: wfe1_def)
qed

text \<open>
  The random numbers of the repaired routine come from the process-wide
  generator of NumPy. Two calls with identical arguments that start from generator states
  with the same next \<open>(2N)\<^sup>2\<close> numbers (in particular from the same state, as after the
  same \<^verbatim>\<open>np.random.seed\<close>) return the same map, and a call leaves the generator
  advanced by \<open>(2N)\<^sup>2\<close> numbers.
\<close>

lemma psd2wfe_repaired_reproducible:
  assumes "\<forall>i < 2 * length psd * (2 * length psd). g i = g' i"
  shows "fst (psd2wfe_repaired I wa g psd rms pv c ov k) = fst (psd2wfe_repaired I wa g' psd rms pv c ov k) \<and>
         snd (psd2wfe_repaired I wa g psd rms pv c ov k) = (\<lambda>i. g (i + 2 * length psd * (2 * length psd)))"
proof
  let ?M = "2 * length psd"
  have "fst (np_random_rand g ?M ?M) (i, j) = fst (np_random_rand g' ?M ?M) (i, j)"
    if "i < ?M" "j < ?M" for i j
  proof -
    have "i * ?M + j < (i + 1) * ?M" using that by simp
    also have "\<dots> \<le> ?M * ?M" using that by (intro mult_le_mono) simp_all
    finally show ?thesis using assms by (simp add: np_random_rand_def)
  qed
  then have "wfe1 I psd (fst (np_random_rand g ?M ?M)) = wfe1 I psd (fst (np_random_rand g' ?M ?M))"
    by (rule wfe1_cong)
  then show "fst (psd2wfe_repaired I wa g psd rms pv c ov k) = fst (psd2wfe_repaired I wa g' psd rms pv c ov k)"
    by (simp add: psd2wfe_repaired_fst wfe_unnormalized_def)
  show "snd (psd2wfe_repaired I wa g psd rms pv c ov k) = (\<lambda>i. g (i + 2 * length psd * (2 * length psd)))"
    by (rule psd2wfe_repaired_snd)
qed

text \<open>Two generator states that agree on their first 36
  numbers.\<close>

lemma psd2wfe_repaired_reproducible_witness:
  "fst (psd2wfe_repaired unit_interpolate no_wfe_aperture stream0 flat3 (1 / 10) (1 / 4) False 1 True)
     = fst (psd2wfe_repaired unit_interpolate no_wfe_aperture zero_stream flat3 (1 / 10) (1 / 4) False 1 True) \<and>
   snd (psd2wfe_repaired unit_interpolate no_wfe_aperture stream0 flat3 (1 / 10) (1 / 4) False 1 True) 0
     = sqrt 2 / 2"
proof -
  have "\<forall>i < 2 * length flat3 * (2 * length flat3). stream0 i = zero_stream i"
    by (simp add: flat3_def stream0_def zero_stream_def)
  from psd2wfe_repaired_reproducible [OF this, of unit_interpolate no_wfe_aperture "1 / 10" "1 / 4" False 1 True]
  have a: "fst (psd2wfe_repaired unit_interpolate no_wfe_aperture stream0 flat3 (1 / 10) (1 / 4) False 1 True)
     = fst (psd2wfe_repaired unit_interpolate no_wfe_aperture zero_stream flat3 (1 / 10) (1 / 4) False 1 True)"
    and b: "snd (psd2wfe_repaired unit_interpolate no_wfe_aperture stream0 flat3 (1 / 10) (1 / 4) False 1 True)
     = (\<lambda>i. stream0 (i + 2 * length flat3 * (2 * length flat3)))"
    by blast+
  have "snd (psd2wfe_repaired unit_interpolate no_wfe_aperture stream0 flat3 (1 / 10) (1 / 4) False 1 True) 0
          = stream0 36"
    unfolding b by (simp add: flat3_def)
  also have "\<dots> = sqrt 2 / 2" by (simp add: stream0_def)
  finally show ?thesis using a by blast
qed

section \<open>Properties of the repaired wfe2psf\<close>

text \<open>
  A polynomial of degree below \<open>N\<close> that vanishes at \<open>N\<close> distinct points has no
  non-zero coefficient.
\<close>

lemma poly_roots_zero:
  fixes c :: "nat \<Rightarrow> complex"
  assumes inj: "inj_on z {..<N}" and roots: "\<And>i. i < N \<Longrightarrow> (\<Sum>x<N. c x * z i ^ x) = 0"
  shows "\<forall>x<N. c x = 0"
proof (cases N)
  case 0
  then show ?thesis by simp
next
  case (Suc n)
  show ?thesis
  proof (rule ccontr)
    assume "\<not> (\<forall>x<N. c x = 0)"
    then obtain k where k: "k \<le> n" "c k \<noteq> 0" using Suc by (auto simp: less_Suc_eq_le)
    let ?R = "{w. (\<Sum>x\<le>n. c x * w ^ x) = 0}"
    have fin: "finite ?R" and card: "card ?R \<le> n"
      using polyfun_rootbound [of c k n] k by auto
    have "z ` {..<N} \<subseteq> ?R"
      using roots by (auto simp: Suc lessThan_Suc_atMost)
    then have "card (z ` {..<N}) \<le> card ?R" using fin by (rule card_mono [rotated])
    moreover have "card (z ` {..<N}) = N" using inj by (simp add: card_image)
    ultimately show False using card Suc by simp
  qed
qed

text \<open>Cyclic shifts: powers of a root of unity and sums over a full period.\<close>

lemma power_mod_root:
  fixes w :: complex
  assumes "w ^ M = 1"
  shows "w ^ n = w ^ (n mod M)"
proof -
  have "w ^ n = w ^ (M * (n div M) + n mod M)" by simp
  also have "\<dots> = (w ^ M) ^ (n div M) * w ^ (n mod M)"
    by (simp only: power_add power_mult)
  finally show ?thesis by (simp add: assms)
qed

lemma shift_back:
  fixes a :: nat
  assumes "0 < M" "a < M"
  shows "((a + s) mod M + (M - s mod M)) mod M = a"
proof -
  have le: "s mod M \<le> M" using assms by (simp add: less_imp_le)
  have "((a + s) mod M + (M - s mod M)) mod M = (a + s + (M - s mod M)) mod M"
    by (simp add: mod_add_left_eq)
  also have "a + s + (M - s mod M) = a + (s div M * M + s mod M) + (M - s mod M)" by simp
  also have "\<dots> = a + (s div M + 1) * M"
    using le by (simp only: add.assoc add_mult_distrib mult_1 le_add_diff_inverse)
  also have "\<dots> mod M = a" using assms by (simp only: mod_mult_self1 mod_less)
  finally show ?thesis .
qed

lemma shift_forth:
  fixes b :: nat
  assumes "0 < M" "b < M"
  shows "((b + (M - s mod M)) mod M + s) mod M = b"
proof -
  have le: "s mod M \<le> M" using assms by (simp add: less_imp_le)
  have "((b + (M - s mod M)) mod M + s) mod M = (b + (M - s mod M) + s) mod M"
    by (simp add: mod_add_left_eq)
  also have "b + (M - s mod M) + s = b + ((M - s mod M) + s mod M) + s div M * M"
    by (simp only: add.assoc) simp
  also have "\<dots> = b + (s div M + 1) * M"
    using le by simp
  also have "\<dots> mod M = b" using assms by (simp only: mod_mult_self1 mod_less)
  finally show ?thesis .
qed

lemma sum_cyclic_shift:
  fixes f :: "nat \<Rightarrow> complex"
  assumes "0 < M"
  shows "(\<Sum>x<M. f ((x + s) mod M)) = (\<Sum>x<M. f x)"
proof -
  have 1: "((a + s) mod M + (M - s mod M)) mod M = a" if "a \<in> {..<M}" for a
    using that assms shift_back [of M a s] by (simp only: lessThan_iff)
  have 2: "(a + s) mod M \<in> {..<M}" if "a \<in> {..<M}" for a using assms by simp
  have 3: "(b + (M - s mod M)) mod M \<in> {..<M}" if "b \<in> {..<M}" for b using assms by simp
  have 4: "((b + (M - s mod M)) mod M + s) mod M = b" if "b \<in> {..<M}" for b
    using that assms shift_forth [of M b s] by (simp only: lessThan_iff)
  show ?thesis
    by (rule sum.reindex_bij_witness [where i = "\<lambda>x. (x + (M - s mod M)) mod M" and j = "\<lambda>x. (x + s) mod M"])
       ((fact 1 2 3 4)+, simp)
qed


text \<open>The arrays of the routine, entry by entry.\<close>

lemma nat_shift_minus: "nat ((int i - (- int s)) mod int M) = (i + s) mod M"
proof -
  have "(int i - (- int s)) mod int M = int ((i + s) mod M)"
    by (simp add: zmod_int)
  then show ?thesis by simp
qed

lemma np_shift_tab:
  "np_shift (tabulate2 M M f) sx sy
     = tabulate2 M M (\<lambda>(i, j). f (nat ((int i - sx) mod int M), nat ((int j - sy) mod int M)))"
proof (cases "M = 0")
  case True
  then show ?thesis by (simp add: np_shift_def tabulate2_def shape_def)
next
  case False
  then have M: "0 < int M" by simp
  have lt: "nat (a mod int M) < M" for a
    using M by (simp add: nat_less_iff)
  show ?thesis
    unfolding np_shift_def Let_def shape_tabulate2_square fst_conv snd_conv
    by (rule tabulate2_cong) (simp add: elem_tabulate2 lt)
qed

lemma fft2_tab_sum:
  "fft2 (tabulate2 M M f)
     = tabulate2 M M (\<lambda>(u, v). \<Sum>x<M. \<Sum>y<M. f (x, y) * twiddle M u x * twiddle M v y)"
proof -
  have e: "sum_list (map (\<lambda>(x, y). elem (tabulate2 M M f) (x, y) * twiddle M u x * twiddle M v y) (positions M M))
            = (\<Sum>x<M. \<Sum>y<M. f (x, y) * twiddle M u x * twiddle M v y)" for u v
  proof -
    have "map (\<lambda>(x, y). elem (tabulate2 M M f) (x, y) * twiddle M u x * twiddle M v y) (positions M M)
            = map (\<lambda>(x, y). f (x, y) * twiddle M u x * twiddle M v y) (positions M M)"
      by (rule map_cong [OF refl]) (auto simp: set_positions elem_tabulate2)
    then show ?thesis by (simp only: sum_list_positions) simp
  qed
  show ?thesis
    unfolding fft2_def Let_def shape_tabulate2_square fst_conv snd_conv
    by (rule tabulate2_cong) (simp add: e)
qed

text \<open>
  \<open>pad\<close> is the entry of the zero-padded field, \<open>unshift\<close> the index that the second
  shift brings to position \<open>i\<close>, and \<open>shifted_transform\<close> the entry of the transform of
  the shifted padded field.
\<close>

definition pad :: "complex list list \<Rightarrow> nat \<Rightarrow> pos \<Rightarrow> complex" where
  "pad E N p = (if fst p < N \<and> snd p < N then elem E p else 0)"

definition unshift :: "nat \<Rightarrow> nat \<Rightarrow> nat \<Rightarrow> nat" where
  "unshift s M i = nat ((int i - int s) mod int M)"

definition shifted_transform :: "(pos \<Rightarrow> complex) \<Rightarrow> nat \<Rightarrow> nat \<Rightarrow> nat \<Rightarrow> nat \<Rightarrow> complex" where
  "shifted_transform b s M u v
     = (\<Sum>x<M. \<Sum>y<M. b ((x + s) mod M, (y + s) mod M) * twiddle M u x * twiddle M v y)"

lemma bigmap_pad: "bigmap E N M = tabulate2 M M (pad E N)"
  unfolding bigmap_def by (rule tabulate2_cong) (simp add: pad_def)

lemma shifted_bigmap:
  "np_shift (bigmap E N M) (- int s) (- int s)
     = tabulate2 M M (\<lambda>(x, y). pad E N ((x + s) mod M, (y + s) mod M))"
  unfolding bigmap_pad np_shift_tab nat_shift_minus ..

lemma Efield_shifted:
  "fft2 (np_shift (bigmap E N M) (- int s) (- int s))
     = tabulate2 M M (\<lambda>(u, v). shifted_transform (pad E N) s M u v)"
  unfolding shifted_bigmap fft2_tab_sum shifted_transform_def by simp

lemma py_slice2_0:
  "py_slice2 a 0 (int N) 0 (int N) = map (take N) (take N a)"
  by (simp add: py_slice2_def py_slice_0)

lemma intensity_small_tab:
  assumes "N \<le> oversample * N"
  shows "intensity_small E N oversample
           = tabulate2 N N (\<lambda>(i, j). (cmod (shifted_transform (pad E N) (N div 2) (oversample * N)
                 (unshift (N div 2) (oversample * N) i) (unshift (N div 2) (oversample * N) j)))\<^sup>2)"
proof -
  have m: "min N (oversample * N) = N" using assms by simp
  show ?thesis
    unfolding intensity_small_def Let_def Efield_shifted map_tabulate2 np_shift_tab py_slice2_0
      take_tabulate2 m unshift_def
    by (rule tabulate2_cong) simp
qed

text \<open>
  The transform is a polynomial in the roots of unity \<open>unity_root M u\<close>, which are distinct
  for distinct \<open>u < M\<close>.
\<close>

definition unity_root :: "nat \<Rightarrow> nat \<Rightarrow> complex" where
  "unity_root M u = cis (- (2 * pi * real u / real M))"

lemma twiddle_root: "twiddle M u x = unity_root M u ^ x"
  by (simp add: unity_root_def twiddle_power)

lemma root_nonzero: "unity_root M u \<noteq> 0"
  by (simp add: unity_root_def)

lemma root_order: "0 < M \<Longrightarrow> unity_root M u ^ M = 1"
proof -
  assume "0 < M"
  then have "unity_root M u ^ M = cis (2 * pi * (- real u))"
    by (simp add: unity_root_def DeMoivre)
  also have "\<dots> = 1" by (rule cis_multiple_2pi) simp
  finally show ?thesis .
qed

lemma root_mult:
  assumes "a \<le> b"
  shows "unity_root M b = unity_root M a * unity_root M (b - a)"
proof -
  have "real b = real a + real (b - a)" using assms by simp
  then have "- (2 * pi * real b / real M)
               = - (2 * pi * real a / real M) + - (2 * pi * real (b - a) / real M)"
    by (simp only: distrib_left add_divide_distrib minus_add_distrib)
  then show ?thesis by (simp only: unity_root_def cis_mult)
qed

lemma root_inj:
  assumes "a < M" "b < M" "unity_root M a = unity_root M b"
  shows "a = b"
proof -
  have aux: False if lt: "a' < b'" and b: "b' < M" and e: "unity_root M a' = unity_root M b'" for a' b'
  proof -
    have "unity_root M b' = unity_root M a' * unity_root M (b' - a')"
      using lt by (intro root_mult) simp
    then have "unity_root M (b' - a') = 1" using e root_nonzero [of M a'] by simp
    moreover have "0 < b' - a'" "b' - a' < M" using lt b by simp_all
    ultimately show False using twiddle_root_not_1 unfolding unity_root_def by blast
  qed
  show ?thesis
  proof (rule ccontr)
    assume "a \<noteq> b"
    then consider "a < b" | "b < a" by linarith
    then show False
    proof cases
      case 1
      then show False using aux [of a b] assms by simp
    next
      case 2
      then show False using aux [of b a] assms by simp
    qed
  qed
qed

lemma unshift_less: "0 < M \<Longrightarrow> unshift s M i < M"
  by (simp add: unshift_def nat_less_iff)

lemma unshift_inj:
  assumes "0 < M" "i < M" "j < M" "unshift s M i = unshift s M j"
  shows "i = j"
proof -
  have "0 \<le> (int i - int s) mod int M" "0 \<le> (int j - int s) mod int M"
    using assms(1) by simp_all
  then have "(int i - int s) mod int M = (int j - int s) mod int M"
    using assms(4) unfolding unshift_def by (simp only: eq_nat_nat_iff)
  then have "int M dvd (int i - int s) - (int j - int s)"
    by (simp only: mod_eq_dvd_iff)
  then have d: "int M dvd int i - int j" by simp
  have "\<bar>int i - int j\<bar> < int M" using assms(2,3) by linarith
  with d have "int i - int j = 0"
    using zdvd_not_zless [of "\<bar>int i - int j\<bar>" "int M"] by auto
  then show ?thesis by simp
qed

text \<open>
  Up to a factor of modulus one, the transform of the shifted padded field at \<open>(u, v)\<close> is
  the polynomial \<open>\<Sum>x<N. \<Sum>y<N. E x y * a ^ x * c ^ y\<close> at the roots of unity \<open>a\<close>,
  \<open>c\<close> of index \<open>u\<close>, \<open>v\<close>.
\<close>

lemma root_power_shift:
  assumes "0 < M"
  shows "unity_root M u ^ x * unity_root M u ^ s = unity_root M u ^ ((x + s) mod M)"
proof -
  have "unity_root M u ^ x * unity_root M u ^ s = unity_root M u ^ (x + s)" by (simp only: power_add)
  also have "\<dots> = unity_root M u ^ ((x + s) mod M)"
    using root_order [OF assms] by (rule power_mod_root)
  finally show ?thesis .
qed

lemma sum_pad:
  assumes "N \<le> M"
  shows "(\<Sum>x<M. \<Sum>y<M. pad E N (x, y) * a ^ x * c ^ y)
           = (\<Sum>x<N. \<Sum>y<N. elem E (x, y) * a ^ x * c ^ y)"
proof -
  have inner: "(\<Sum>y<M. pad E N (x, y) * a ^ x * c ^ y)
                 = (if x < N then \<Sum>y<N. elem E (x, y) * a ^ x * c ^ y else 0)" for x
  proof (cases "x < N")
    case True
    have "(\<Sum>y<M. pad E N (x, y) * a ^ x * c ^ y) = (\<Sum>y<N. pad E N (x, y) * a ^ x * c ^ y)"
      using assms by (intro sum.mono_neutral_right) (auto simp: pad_def)
    also have "\<dots> = (\<Sum>y<N. elem E (x, y) * a ^ x * c ^ y)"
      using True by (intro sum.cong) (auto simp: pad_def)
    finally show ?thesis using True by simp
  next
    case False
    then show ?thesis by (simp add: pad_def)
  qed
  have "(\<Sum>x<M. \<Sum>y<M. pad E N (x, y) * a ^ x * c ^ y)
          = (\<Sum>x<M. if x < N then \<Sum>y<N. elem E (x, y) * a ^ x * c ^ y else 0)"
    by (simp only: inner)
  also have "\<dots> = (\<Sum>x<N. if x < N then \<Sum>y<N. elem E (x, y) * a ^ x * c ^ y else 0)"
    using assms by (intro sum.mono_neutral_right) auto
  also have "\<dots> = (\<Sum>x<N. \<Sum>y<N. elem E (x, y) * a ^ x * c ^ y)"
    by (intro sum.cong) auto
  finally show ?thesis .
qed

lemma shifted_transform_root:
  assumes M: "0 < M" and NM: "N \<le> M"
  shows "unity_root M u ^ s * unity_root M v ^ s * shifted_transform (pad E N) s M u v
           = (\<Sum>x<N. \<Sum>y<N. elem E (x, y) * unity_root M u ^ x * unity_root M v ^ y)"
proof -
  define h where "h x y = pad E N (x, y) * unity_root M u ^ x * unity_root M v ^ y" for x y
  have tm: "unity_root M u ^ s * unity_root M v ^ s
                 * (pad E N ((x + s) mod M, (y + s) mod M) * twiddle M u x * twiddle M v y)
               = h ((x + s) mod M) ((y + s) mod M)" for x y
  proof -
    have "unity_root M u ^ s * unity_root M v ^ s
            * (pad E N ((x + s) mod M, (y + s) mod M) * twiddle M u x * twiddle M v y)
          = pad E N ((x + s) mod M, (y + s) mod M)
            * (unity_root M u ^ x * unity_root M u ^ s) * (unity_root M v ^ y * unity_root M v ^ s)"
      by (simp add: twiddle_root)
    then show ?thesis
      by (simp only: root_power_shift [OF M] h_def)
  qed
  have "unity_root M u ^ s * unity_root M v ^ s * shifted_transform (pad E N) s M u v
          = (\<Sum>x<M. \<Sum>y<M. h ((x + s) mod M) ((y + s) mod M))"
    unfolding shifted_transform_def sum_distrib_left tm ..
  also have "\<dots> = (\<Sum>x<M. \<Sum>y<M. h ((x + s) mod M) y)"
    by (simp only: sum_cyclic_shift [OF M, where f = "h x'" for x'])
  also have "\<dots> = (\<Sum>x<M. \<Sum>y<M. h x y)"
    by (rule sum_cyclic_shift [OF M, where f = "\<lambda>x. \<Sum>y<M. h x y"])
  also have "\<dots> = (\<Sum>x<N. \<Sum>y<N. elem E (x, y) * unity_root M u ^ x * unity_root M v ^ y)"
    unfolding h_def using NM by (rule sum_pad)
  finally show ?thesis .
qed

text \<open>
  The crop keeps \<open>N\<close> distinct frequencies along each axis. If the transform vanished at
  all of them, every coefficient of the polynomial, that is every pixel of the field,
  would be zero. So the cropped intensity of a field with one lit pixel has a positive
  total; in particular the field \<open>exp_wfe wfe\<close>, which vanishes nowhere.
\<close>

lemma transform_nonzero:
  assumes M: "0 < M" and NM: "N \<le> M"
    and px: "x0 < N" "y0 < N" "elem E (x0, y0) \<noteq> 0"
  shows "\<exists>i<N. \<exists>j<N. shifted_transform (pad E N) s M (unshift s M i) (unshift s M j) \<noteq> 0"
proof (rule ccontr)
  assume "\<not> ?thesis"
  then have zero: "shifted_transform (pad E N) s M (unshift s M i) (unshift s M j) = 0"
    if "i < N" "j < N" for i j using that by blast
  define z where "z i = unity_root M (unshift s M i)" for i
  have inj: "inj_on z {..<N}"
  proof (rule inj_onI)
    fix i j assume "i \<in> {..<N}" "j \<in> {..<N}" "z i = z j"
    then have ij: "i < M" "j < M" and e: "unity_root M (unshift s M i) = unity_root M (unshift s M j)"
      using NM by (simp_all add: z_def)
    have "unshift s M i = unshift s M j"
      using unshift_less [OF M] unshift_less [OF M] e by (rule root_inj)
    with M ij show "i = j" by (rule unshift_inj)
  qed
  have G: "(\<Sum>x<N. \<Sum>y<N. elem E (x, y) * z i ^ x * z j ^ y) = 0" if "i < N" "j < N" for i j
    using shifted_transform_root [OF M NM, of "unshift s M i" s "unshift s M j" E] zero [OF that]
    by (simp add: z_def)
  have rows: "(\<Sum>y<N. elem E (x, y) * z j ^ y) = 0" if j: "j < N" and x: "x < N" for j x
  proof -
    have "(\<Sum>x<N. (\<Sum>y<N. elem E (x, y) * z j ^ y) * z i ^ x) = 0" if "i < N" for i
    proof -
      have "(\<Sum>x<N. (\<Sum>y<N. elem E (x, y) * z j ^ y) * z i ^ x)
              = (\<Sum>x<N. \<Sum>y<N. elem E (x, y) * z i ^ x * z j ^ y)"
        by (simp add: sum_distrib_right sum_distrib_left mult_ac)
      then show ?thesis using G [OF that j] by simp
    qed
    with inj have "\<forall>x<N. (\<Sum>y<N. elem E (x, y) * z j ^ y) = 0"
      by (rule poly_roots_zero)
    with x show ?thesis by blast
  qed
  have "\<forall>y<N. elem E (x0, y) = 0"
    using inj rows [OF _ px(1)] by (rule poly_roots_zero)
  with px(2,3) show False by blast
qed

lemma sum2_tabulate2:
  fixes f :: "pos \<Rightarrow> real"
  shows "sum2 (tabulate2 Nx Ny f) = (\<Sum>i<Nx. \<Sum>j<Ny. f (i, j))"
  by (simp only: sum2_concat concat_tabulate2 sum_list_positions)

lemma intensity_small_total:
  assumes k: "1 \<le> oversample" and px: "x0 < N" "y0 < N" "elem E (x0, y0) \<noteq> 0"
  shows "0 < sum2 (intensity_small E N oversample)"
proof -
  let ?M = "oversample * N"
  let ?I = "\<lambda>i j. (cmod (shifted_transform (pad E N) (N div 2) ?M
                 (unshift (N div 2) ?M i) (unshift (N div 2) ?M j)))\<^sup>2"
  have NM: "N \<le> ?M" using k by simp
  have M: "0 < ?M" using k px(1) by simp
  obtain i j where ij: "i < N" "j < N" "0 < ?I i j"
    using transform_nonzero [OF M NM px, of "N div 2"] by auto
  have "?I i j \<le> (\<Sum>j<N. ?I i j)"
    using ij(2) by (intro member_le_sum) simp_all
  also have "\<dots> \<le> (\<Sum>i<N. \<Sum>j<N. ?I i j)"
    using ij(1) by (intro member_le_sum [where f = "\<lambda>i. \<Sum>j<N. ?I i j"] sum_nonneg) simp_all
  finally have "?I i j \<le> (\<Sum>i<N. \<Sum>j<N. ?I i j)" .
  with ij(3) have "0 < (\<Sum>i<N. \<Sum>j<N. ?I i j)" by (rule less_le_trans)
  then show ?thesis
    unfolding intensity_small_tab [OF NM] sum2_tabulate2 by simp
qed

lemma intensity_small_shape:
  assumes "1 \<le> oversample"
  shows "\<exists>g. intensity_small E N oversample = tabulate2 N N g \<and> (\<forall>p. 0 \<le> g p)"
proof -
  have NM: "N \<le> oversample * N" using assms by simp
  show ?thesis
    unfolding intensity_small_tab [OF NM]
    by (rule exI [where x = "\<lambda>(i, j). (cmod (shifted_transform (pad E N) (N div 2) (oversample * N)
          (unshift (N div 2) (oversample * N) i) (unshift (N div 2) (oversample * N) j)))\<^sup>2"])
       auto
qed

lemma broadcast_square: "list_all (\<lambda>row. length row = N) a \<Longrightarrow> broadcast N a = Inr a"
  by (simp add: broadcast_def)

lemma exp_wfe_rows:
  "list_all (\<lambda>row. length row = N) wfe \<Longrightarrow> list_all (\<lambda>row. length row = N) (exp_wfe wfe)"
  by (simp add: exp_wfe_def list_all_iff)

lemma elem_exp_wfe:
  assumes "x < length wfe" "y < length (wfe ! x)"
  shows "elem (exp_wfe wfe) (x, y) \<noteq> 0"
  using assms by (simp add: elem_def exp_wfe_def)

lemma psf_normalized:
  fixes g :: "pos \<Rightarrow> real"
  assumes T: "0 < sum2 (tabulate2 N N g)" and g: "\<And>p. 0 \<le> g p"
  defines "ps \<equiv> tabulate2 N N (\<lambda>p. g p / sum2 (tabulate2 N N g))"
  shows "map (map (\<lambda>x. np_divide x (sum2 (tabulate2 N N g)))) (tabulate2 N N g) = map (map Fin) ps"
    and "length ps = N" and "list_all (\<lambda>row. length row = N) ps"
    and "list_all (list_all (\<lambda>p. 0 \<le> p)) ps" and "sum2 ps = 1"
proof -
  let ?T = "sum2 (tabulate2 N N g)"
  have nz: "?T \<noteq> 0" using T by simp
  show "map (map (\<lambda>x. np_divide x ?T)) (tabulate2 N N g) = map (map Fin) ps"
    unfolding ps_def map_tabulate2 using nz by (simp add: np_divide_def)
  show "length ps = N" by (simp add: ps_def tabulate2_def)
  show "list_all (\<lambda>row. length row = N) ps" by (simp add: ps_def tabulate2_def list_all_iff)
  show "list_all (list_all (\<lambda>p. 0 \<le> p)) ps"
    using g T by (simp add: ps_def tabulate2_def list_all_iff)
  have "sum2 ps = (\<Sum>i<N. \<Sum>j<N. g (i, j)) / ?T"
    unfolding ps_def sum2_tabulate2 by (simp only: sum_divide_distrib)
  also have "\<dots> = ?T / ?T" by (simp only: sum2_tabulate2)
  also have "\<dots> = 1" using nz by simp
  finally show "sum2 ps = 1" .
qed

text \<open>
  For a square map with at least one pixel and an oversampling factor of at
  least 1, \<open>wfe2psf_repaired\<close> returns normally; the point spread function is an array of
  finite real numbers with the \<open>N x N\<close> shape of the input, each of them non-negative,
  and they sum to 1. This holds with and without the optional outputs.
\<close>

lemma wfe2psf_repaired_unit_energy:
  assumes ne: "wfe \<noteq> []"
    and sq: "list_all (\<lambda>row. length row = length wfe) wfe"
    and k: "1 \<le> oversample"
  shows "\<exists>ps scale. wfe2psf_repaired wfe oversample f_ratio lam = Inr (map (map Fin) ps, scale)
           \<and> length ps = length wfe
           \<and> list_all (\<lambda>row. length row = length wfe) ps
           \<and> list_all (list_all (\<lambda>p. 0 \<le> p)) ps
           \<and> sum2 ps = 1"
proof -
  let ?N = "length wfe"
  let ?E = "exp_wfe wfe"
  have N: "0 < ?N" using ne by simp
  have M: "oversample * ?N \<noteq> 0" using N k by simp
  have row0: "0 < length (wfe ! 0)" using sq N by (simp add: list_all_length)
  have px: "elem ?E (0, 0) \<noteq> 0" using N row0 by (rule elem_exp_wfe)
  have T: "0 < sum2 (intensity_small ?E ?N oversample)"
    using k N N px by (rule intensity_small_total)
  obtain g where g: "intensity_small ?E ?N oversample = tabulate2 ?N ?N g" "\<And>p. 0 \<le> g p"
    using intensity_small_shape [OF k, of ?E ?N] by blast
  have T': "0 < sum2 (tabulate2 ?N ?N g)" using T by (simp only: g(1))
  have run: "wfe2psf_repaired wfe oversample f_ratio lam
               = Inr (map (map (\<lambda>x. np_divide x (sum2 (tabulate2 ?N ?N g)))) (tabulate2 ?N ?N g),
                      if 0 < f_ratio \<and> 0 < lam
                      then Some (lam * f_ratio / real oversample,
                                 (real ?N - 1 / 2 * real ?N) * (lam * f_ratio / real oversample))
                      else None)"
    unfolding wfe2psf_repaired_def Let_def broadcast_square [OF exp_wfe_rows [OF sq]]
    using M by (simp add: g(1))
  show ?thesis
    unfolding run using psf_normalized [OF T' g(2)] by blast
qed

text \<open>The same at the flat 2 x 2 map with twofold oversampling.\<close>

lemma wfe2psf_repaired_unit_energy_witness:
  "[[0, 0], [0, 0]] \<noteq> ([] :: complex list list)
     \<and> list_all (\<lambda>row. length row = length [[0, 0], [0, 0 :: complex]]) [[0, 0], [0, 0 :: complex]]
     \<and> (1 :: nat) \<le> 2
     \<and> (\<exists>ps scale. wfe2psf_repaired [[0, 0], [0, 0]] 2 0 0 = Inr (map (map Fin) ps, scale)
           \<and> length ps = 2
           \<and> list_all (\<lambda>row. length row = 2) ps
           \<and> list_all (list_all (\<lambda>p. 0 \<le> p)) ps
           \<and> sum2 ps = 1)"
  using wfe2psf_repaired_unit_energy [of "[[0, 0], [0, 0]]" 2 0 0] by (simp add: numeral_2_eq_2)

section \<open>Properties of psd2wfe as written\<close>

text \<open>Every call ends in an exception: no map is returned.\<close>

lemma psd2wfe_never_returns:
  "\<exists>e. fst (psd2wfe interpolate psd rms pv circular oversize keep_defocus verbose g) = Inl e"
  by (cases interpolate)
     (simp_all add: psd2wfe_def psd2wfe_spectrum_def np_fft_fft2d_def Let_def split: prod.split)

text \<open>
  Claim C1. The call \<^verbatim>\<open>psd2wfe(np.array([1., 1., 1.]), rms = 1.)\<close>, the other arguments
  at their defaults, from any state of the generator: the routine raises \<^verbatim>\<open>NameError\<close> at
  line 75 when nothing is bound to \<^verbatim>\<open>interpolate\<close>, and \<^verbatim>\<open>AttributeError\<close> at line 85
  otherwise. It returns no map, so none whose aperture samples have mean 0 and root mean
  square 1.
\<close>

theorem psd2wfe_raises_before_normalizing:
  "fst (psd2wfe interpolate [1, 1, 1] 1 (1 / 4) False 1 False False g)
     = Inl (case interpolate of
              None \<Rightarrow> NameError ''name interpolate is not defined''
            | Some f \<Rightarrow> AttributeError ''module numpy.fft has no attribute fft2d'')"
  by (cases interpolate)
     (simp_all add: psd2wfe_def psd2wfe_spectrum_def np_fft_fft2d_def Let_def split: prod.split)






section \<open>Properties of wfe2psf as written\<close>

text \<open>Every call ends in an exception: no point spread function is returned.\<close>

lemma wfe2psf_never_returns: "\<exists>e. wfe2psf wfe oversample f_ratio lam = Inl e"
  by (simp add: wfe2psf_def py_call_int_def)

text \<open>
  Claim C2. The call \<^verbatim>\<open>wfe2psf(np.zeros((2, 2), dtype = complex), oversample = 2)\<close>: the
  routine raises \<^verbatim>\<open>TypeError\<close> at line 56. It returns no point spread function, so none
  that is 2 x 2, non-negative and of sum 1.
\<close>

theorem wfe2psf_raises_at_size_call:
  "wfe2psf [[0, 0], [0, 0]] 2 0 0 = Inl (TypeError ''int object is not callable'')"
  by (simp add: wfe2psf_def py_call_int_def)

end
